theory Spec2Isabelle
  imports Complex_Main "HOL-Library.Word"
begin

section \<open>Data model\<close>

text \<open>
  The provider is a single TypeScript module. Strings are modelled as \<^typ>\<open>string\<close>: one
  \<^typ>\<open>char\<close> stands for one UTF-16 code unit below 256, so every string of the model is a
  string the program can receive. The module compares, concatenates and passes strings on;
  only the model reference parser looks at single code units, and it is given on full
  JavaScript strings (lists of 16-bit code units) as well.
\<close>

text \<open>
  \<^verbatim>\<open>ParsedEvent\<close> of the event-stream parser: the payload \<^verbatim>\<open>data\<close> and the optional
  name \<^verbatim>\<open>event\<close> (\<open>None\<close> is \<^verbatim>\<open>undefined\<close>: the event carried no name).
\<close>

record ParsedEvent =
  data :: string
  event :: "string option"

record usage =
  promptTokens :: nat
  completionTokens :: nat

text \<open>The two stream parts the module produces, a tagged union on \<^verbatim>\<open>type\<close>.\<close>

datatype stream_part =
  TextDelta (textDelta: string)
| Finish (part_finishReason: string) (part_usage: usage)

fun part_type :: "stream_part \<Rightarrow> string" where
  "part_type (TextDelta _) = ''text-delta''"
| "part_type (Finish _ _) = ''finish''"

section \<open>The stream transcoder\<close>

text \<open>
  The controller of the \<^verbatim>\<open>TransformStream\<close>: the parts enqueued on the readable side so far,
  and whether \<^verbatim>\<open>terminate()\<close> has been called. After termination the readable side is closed
  and the writable side is errored, so \<^verbatim>\<open>transform\<close> is not called for any later chunk.
\<close>

record controller =
  queue :: "stream_part list"
  terminated :: bool

definition enqueue :: "stream_part \<Rightarrow> controller \<Rightarrow> controller" where
  "enqueue part c = c\<lparr>queue := queue c @ [part]\<rparr>"

definition terminate :: "controller \<Rightarrow> controller" where
  "terminate c = c\<lparr>terminated := True\<rparr>"

text \<open>The \<^verbatim>\<open>transform({ data, event }, controller)\<close> callback of the source.\<close>

definition transform :: "ParsedEvent \<Rightarrow> controller \<Rightarrow> controller" where
  "transform ev c =
     (if event ev = Some ''done'' then
        terminate
          (enqueue (Finish ''stop'' \<lparr>promptTokens = 0, completionTokens = 0\<rparr>) c)
      else if event ev = Some ''output'' then
        enqueue (TextDelta (data ev)) c
      else c)"

text \<open>
  Piping the parsed events through the transform stream: each chunk is handed to
  \<^verbatim>\<open>transform\<close> in arrival order until the controller is terminated or the input ends.
\<close>

fun pipe_loop :: "ParsedEvent list \<Rightarrow> controller \<Rightarrow> controller" where
  "pipe_loop [] c = c"
| "pipe_loop (ev # rest) c =
     (if terminated c then c else pipe_loop rest (transform ev c))"

definition pipeThrough :: "ParsedEvent list \<Rightarrow> controller" where
  "pipeThrough events = pipe_loop events \<lparr>queue = [], terminated = False\<rparr>"


section \<open>JSON values and errors\<close>

text \<open>
  JSON values, for the request body and the response bodies. An object is a finite map from
  keys to values: the order of the keys plays no role in what follows.
\<close>

datatype json =
  JNull | JBool bool | JNum rat | JStr string | JArr "json list" | JObj "string \<rightharpoonup> json"

text \<open>
  Every failure of the module is a thrown JavaScript error; it is modelled as a value.
  \<open>Error\<close> is the plain \<^verbatim>\<open>new Error(message)\<close> of the source, \<open>APICallError\<close> and
  \<open>TypeValidationError\<close> are the two errors the HTTP helper raises (for a failed response and
  for a response body that does not fit the schema; the latter carries the rejected value).
\<close>

datatype error =
  Error (message: string)
| APICallError (message: string) (statusCode: nat)
| TypeValidationError (rejected: json)

section \<open>The model reference parser\<close>

text \<open>The parts of a model reference; \<open>None\<close> is a version that is \<^verbatim>\<open>undefined\<close>.\<close>

record 'c model_ref =
  owner :: "'c list"
  name :: "'c list"
  version :: "'c list option"

text \<open>
  The regular expression of \<^verbatim>\<open>parseModelId\<close> is
  \<^verbatim>\<open>/^(?<owner>[^/]+)\/(?<name>[^/:]+)(:(?<version>.+))?$/\<close>.
  It is embedded as a backtracking matcher in continuation style, one combinator per construct:
  a greedy repetition tries the longest run first and gives characters back while the rest of
  the pattern fails, as the JavaScript engine does. The continuation receives the captured text
  and the remaining input. The matcher works on lists over any type of code units.
\<close>

fun star_greedy ::
  "('c \<Rightarrow> bool) \<Rightarrow> ('c list \<Rightarrow> 'c list \<Rightarrow> 'a option) \<Rightarrow> 'c list \<Rightarrow> 'c list \<Rightarrow> 'a option" where
  "star_greedy P k acc [] = k acc []"
| "star_greedy P k acc (c # cs) =
     (if P c then
        (case star_greedy P k (acc @ [c]) cs of
           Some r \<Rightarrow> Some r
         | None \<Rightarrow> k acc (c # cs))
      else k acc (c # cs))"

fun plus_greedy ::
  "('c \<Rightarrow> bool) \<Rightarrow> ('c list \<Rightarrow> 'c list \<Rightarrow> 'a option) \<Rightarrow> 'c list \<Rightarrow> 'a option" where
  "plus_greedy P k [] = None"
| "plus_greedy P k (c # cs) = (if P c then star_greedy P k [c] cs else None)"

fun lit :: "'c \<Rightarrow> ('c list \<Rightarrow> 'a option) \<Rightarrow> 'c list \<Rightarrow> 'a option" where
  "lit a k [] = None"
| "lit a k (c # cs) = (if c = a then k cs else None)"

text \<open>\<^verbatim>\<open>$\<close> without the multiline flag: only the end of the input matches.\<close>

definition eoi :: "'a \<Rightarrow> 'c list \<Rightarrow> 'a option" where
  "eoi r s = (if s = [] then Some r else None)"

text \<open>
  The pattern itself, given the code units of the slash and of the colon and the set of code
  units that \<^verbatim>\<open>.\<close> matches.
\<close>

definition ref_regex_on :: "'c \<Rightarrow> 'c \<Rightarrow> ('c \<Rightarrow> bool) \<Rightarrow> 'c list \<Rightarrow> 'c model_ref option" where
  "ref_regex_on slash colon dot s =
     plus_greedy (\<lambda>c. c \<noteq> slash)
       (\<lambda>ow. lit slash
          (plus_greedy (\<lambda>c. c \<noteq> slash \<and> c \<noteq> colon)
             (\<lambda>nm rest.
                (case lit colon
                        (plus_greedy dot
                           (\<lambda>v. eoi \<lparr>owner = ow, name = nm, version = Some v\<rparr>)) rest of
                   Some r \<Rightarrow> Some r
                 | None \<Rightarrow> eoi \<lparr>owner = ow, name = nm, version = None\<rparr> rest)))) s"

subsection \<open>On JavaScript strings\<close>

text \<open>
  A JavaScript string is a sequence of UTF-16 code units, and the regular expression, which has
  no unicode flag, works on code units. \<^verbatim>\<open>.\<close> without the dotAll flag matches every code
  unit but the four line terminators: line feed, carriage return, U+2028 and U+2029. A negated
  class such as \<^verbatim>\<open>[^/]\<close> does match them.
\<close>

type_synonym code_unit = "16 word"

definition line_terminator_utf16 :: "code_unit \<Rightarrow> bool" where
  "line_terminator_utf16 c = (c = 0x0A \<or> c = 0x0D \<or> c = 0x2028 \<or> c = 0x2029)"

definition ref_regex_utf16 :: "code_unit list \<Rightarrow> code_unit model_ref option" where
  "ref_regex_utf16 s = ref_regex_on 0x2F 0x3A (\<lambda>c. \<not> line_terminator_utf16 c) s"

text \<open>The code units of a string literal of the source.\<close>

definition utf16 :: "string \<Rightarrow> code_unit list" where
  "utf16 s = map (\<lambda>c. of_nat (of_char c)) s"

text \<open>
  \<^verbatim>\<open>parseModelId\<close> on JavaScript strings. \<open>Inl\<close> carries the message of the error thrown.
\<close>

definition parseModelId_utf16 :: "code_unit list \<Rightarrow> code_unit list + code_unit model_ref" where
  "parseModelId_utf16 ref =
     (case ref_regex_utf16 ref of
        None \<Rightarrow>
          Inl (utf16 ''Invalid reference to model version: '' @ ref
                 @ utf16 ''. Expected format: owner/name or owner/name:version'')
      | Some groups \<Rightarrow> Inr groups)"

text \<open>
  The grammar of model references, as a relation between a string and its three parts: the
  owner is non-empty and has no slash (U+002F), the name is non-empty and has neither slash
  nor colon (U+003A), and the version, when there is one, is the non-empty rest after the
  colon that follows the name and holds none of the four line terminators.
\<close>

definition valid_ref_utf16 :: "code_unit list \<Rightarrow> code_unit model_ref \<Rightarrow> bool" where
  "valid_ref_utf16 ref r =
     (owner r \<noteq> [] \<and> 0x2F \<notin> set (owner r)
      \<and> name r \<noteq> [] \<and> 0x2F \<notin> set (name r) \<and> 0x3A \<notin> set (name r)
      \<and> (case version r of
            None \<Rightarrow> ref = owner r @ [0x2F] @ name r
          | Some v \<Rightarrow>
              v \<noteq> [] \<and> (\<forall>c \<in> set v. c \<notin> {0x0A, 0x0D, 0x2028, 0x2029})
              \<and> ref = owner r @ [0x2F] @ name r @ [0x3A] @ v))"

subsection \<open>On strings of 8-bit characters\<close>

text \<open>
  The rest of the model works on \<^typ>\<open>string\<close>. There \<^verbatim>\<open>parseModelId\<close> is the same
  matcher; of the line terminators only line feed and carriage return exist below 256. It is
  the restriction of the parser above to the strings whose code units are below 256, which
  is proved below (\<open>parseModelId_utf16_agrees\<close>).
\<close>

definition line_terminator :: "char \<Rightarrow> bool" where
  "line_terminator c = (c = CHR 0x0A \<or> c = CHR 0x0D)"

definition ref_regex :: "string \<Rightarrow> char model_ref option" where
  "ref_regex s = ref_regex_on CHR ''/'' CHR '':'' (\<lambda>c. \<not> line_terminator c) s"

definition parseModelId :: "string \<Rightarrow> error + char model_ref" where
  "parseModelId ref =
     (case ref_regex ref of
        None \<Rightarrow>
          Inl (Error (''Invalid reference to model version: '' @ ref
                 @ ''. Expected format: owner/name or owner/name:version''))
      | Some groups \<Rightarrow> Inr groups)"

definition valid_ref :: "string \<Rightarrow> char model_ref \<Rightarrow> bool" where
  "valid_ref ref r =
     (owner r \<noteq> [] \<and> CHR ''/'' \<notin> set (owner r)
      \<and> name r \<noteq> [] \<and> CHR ''/'' \<notin> set (name r) \<and> CHR '':'' \<notin> set (name r)
      \<and> (case version r of
            None \<Rightarrow> ref = owner r @ ''/'' @ name r
          | Some v \<Rightarrow>
              v \<noteq> [] \<and> (\<forall>c \<in> set v. \<not> line_terminator c)
              \<and> ref = owner r @ ''/'' @ name r @ '':'' @ v))"

subsection \<open>Auxiliary definitions for the proofs\<close>

text \<open>
  What is left of the pattern after the name, in closed form, and the grammar over any type of
  code units.
\<close>

definition tail_groups ::
  "'c \<Rightarrow> ('c \<Rightarrow> bool) \<Rightarrow> 'c list \<Rightarrow> 'c list \<Rightarrow> 'c list \<Rightarrow> 'c model_ref option" where
  "tail_groups colon dot ow nm rest =
     (case rest of
        [] \<Rightarrow> Some \<lparr>owner = ow, name = nm, version = None\<rparr>
      | c # v \<Rightarrow>
          if c = colon \<and> v \<noteq> [] \<and> (\<forall>x \<in> set v. dot x)
          then Some \<lparr>owner = ow, name = nm, version = Some v\<rparr> else None)"

definition valid_ref_on ::
  "'c \<Rightarrow> 'c \<Rightarrow> ('c \<Rightarrow> bool) \<Rightarrow> 'c list \<Rightarrow> 'c model_ref \<Rightarrow> bool" where
  "valid_ref_on slash colon dot ref r =
     (owner r \<noteq> [] \<and> slash \<notin> set (owner r)
      \<and> name r \<noteq> [] \<and> slash \<notin> set (name r) \<and> colon \<notin> set (name r)
      \<and> (case version r of
            None \<Rightarrow> ref = owner r @ [slash] @ name r
          | Some v \<Rightarrow>
              v \<noteq> [] \<and> (\<forall>c \<in> set v. dot c)
              \<and> ref = owner r @ [slash] @ name r @ [colon] @ v))"

section \<open>Prompts and the default transformers\<close>

text \<open>
  Modelled from the spec: the type \<^verbatim>\<open>LanguageModelV1Prompt\<close> is declared by the provider
  interface package, not by this module. A prompt is an ordered sequence of messages, each with
  a role (system, user, assistant, tool); a system message carries a string, the others a list
  of content blocks, of which only text blocks carry text. The payloads of the other blocks are
  never read by the module and are left out.
\<close>

datatype content_part =
  TextPart (part_text: string)
| ImagePart
| ToolCallPart
| ToolResultPart

fun content_type :: "content_part \<Rightarrow> string" where
  "content_type (TextPart _) = ''text''"
| "content_type ImagePart = ''image''"
| "content_type ToolCallPart = ''tool-call''"
| "content_type ToolResultPart = ''tool-result''"

datatype message =
  System string
| User "content_part list"
| Assistant "content_part list"
| Tool "content_part list"

type_synonym prompt = "message list"

text \<open>\<^verbatim>\<open>Array.prototype.join\<close> on an array of strings.\<close>

fun join :: "string \<Rightarrow> string list \<Rightarrow> string" where
  "join sep [] = []"
| "join sep [x] = x"
| "join sep (x # y # ys) = x @ sep @ join sep (y # ys)"

text \<open>
  The loop of \<^verbatim>\<open>transformPrompt\<close>. For a user or assistant message it pushes onto
  \<^verbatim>\<open>parts\<close> the array \<^verbatim>\<open>content.filter(c => c.type === "text").map(c => c.text)\<close>
  itself, so \<^verbatim>\<open>parts\<close> is an array of arrays of strings.
\<close>

fun transformPrompt_loop :: "prompt \<Rightarrow> string list list \<Rightarrow> string list list" where
  "transformPrompt_loop [] parts = parts"
| "transformPrompt_loop (System _ # rest) parts = transformPrompt_loop rest parts"
| "transformPrompt_loop (User content # rest) parts =
     transformPrompt_loop rest
       (parts @ [map part_text (filter (\<lambda>c. content_type c = ''text'') content)])"
| "transformPrompt_loop (Assistant content # rest) parts =
     transformPrompt_loop rest
       (parts @ [map part_text (filter (\<lambda>c. content_type c = ''text'') content)])"
| "transformPrompt_loop (Tool _ # rest) parts = transformPrompt_loop rest parts"

text \<open>
  \<^verbatim>\<open>parts.join("")\<close> converts each element to a string first; an element that is an array
  is converted by \<^verbatim>\<open>Array.prototype.toString\<close>, which is \<^verbatim>\<open>join(",")\<close>.
\<close>

definition transformPrompt :: "prompt \<Rightarrow> string" where
  "transformPrompt prompt = join [] (map (join '','') (transformPrompt_loop prompt []))"

fun transformSystemPrompt_loop :: "prompt \<Rightarrow> string list \<Rightarrow> string list" where
  "transformSystemPrompt_loop [] parts = parts"
| "transformSystemPrompt_loop (System content # rest) parts =
     transformSystemPrompt_loop rest (parts @ [content])"
| "transformSystemPrompt_loop (_ # rest) parts = transformSystemPrompt_loop rest parts"

text \<open>The result is \<^verbatim>\<open>string | undefined\<close>; \<open>None\<close> is \<^verbatim>\<open>undefined\<close>.\<close>

definition transformSystemPrompt :: "prompt \<Rightarrow> string option" where
  "transformSystemPrompt prompt =
     (let parts = transformSystemPrompt_loop prompt []
      in if length parts \<noteq> 0 then Some (join [] parts) else None)"

text \<open>
  The text blocks of one message, as the element it contributes to \<^verbatim>\<open>parts\<close> (used to
  state what \<^verbatim>\<open>transformPrompt\<close> computes).
\<close>

fun message_texts :: "message \<Rightarrow> string list list" where
  "message_texts (User content) = [[t. TextPart t \<leftarrow> content]]"
| "message_texts (Assistant content) = [[t. TextPart t \<leftarrow> content]]"
| "message_texts _ = []"

section \<open>Settings and the request builder\<close>

text \<open>
  \<^verbatim>\<open>ReplicateModelSettings\<close>: every field is optional. The values of \<^verbatim>\<open>extraInput\<close>
  are modelled as JSON values, which is what the request body can carry.
\<close>

record settings =
  promptName :: "string option"
  promptTransformer :: "(prompt \<Rightarrow> string) option"
  systemPromptName :: "string option"
  systemPromptTransformer :: "(prompt \<Rightarrow> string) option"
  extraInput :: "(string \<rightharpoonup> json) option"

text \<open>The default value \<^verbatim>\<open>{}\<close> of the parameter \<^verbatim>\<open>settings\<close>.\<close>

definition default_settings :: settings where
  "default_settings =
     \<lparr>promptName = None, promptTransformer = None, systemPromptName = None,
      systemPromptTransformer = None, extraInput = None\<rparr>"

text \<open>JavaScript truthiness of a value of type \<^verbatim>\<open>string | undefined\<close>.\<close>

fun truthy :: "string option \<Rightarrow> bool" where
  "truthy None = False"
| "truthy (Some s) = (s \<noteq> [])"

text \<open>Lines 151 to 156 of the source: both transformers default from \<^verbatim>\<open>promptTransformer\<close>.\<close>

definition transformedPrompt :: "settings \<Rightarrow> prompt \<Rightarrow> string" where
  "transformedPrompt st prompt =
     (case promptTransformer st of
        Some transformer \<Rightarrow> transformer prompt
      | None \<Rightarrow> transformPrompt prompt)"

definition transformedSystemPrompt :: "settings \<Rightarrow> prompt \<Rightarrow> string option" where
  "transformedSystemPrompt st prompt =
     (case promptTransformer st of
        Some transformer \<Rightarrow> Some (transformer prompt)
      | None \<Rightarrow> transformSystemPrompt prompt)"

definition promptKey :: "settings \<Rightarrow> string" where
  "promptKey st = (case promptName st of Some n \<Rightarrow> n | None \<Rightarrow> ''prompt'')"

definition systemPromptKey :: "settings \<Rightarrow> string" where
  "systemPromptKey st = (case systemPromptName st of Some n \<Rightarrow> n | None \<Rightarrow> ''system_prompt'')"

text \<open>
  The \<^verbatim>\<open>input\<close> object of the body: the spread of \<^verbatim>\<open>extraInput\<close>, then the prompt
  under its key, then the spread of the system prompt object, which is present only when the
  transformed system prompt is truthy. Later entries replace earlier ones with the same key.
\<close>

definition request_input :: "settings \<Rightarrow> prompt \<Rightarrow> (string \<rightharpoonup> json)" where
  "request_input st prompt =
     ((case extraInput st of Some extra \<Rightarrow> extra | None \<Rightarrow> Map.empty)
        (promptKey st \<mapsto> JStr (transformedPrompt st prompt)))
     ++ (case transformedSystemPrompt st prompt of
           Some sp \<Rightarrow> if truthy (Some sp) then [systemPromptKey st \<mapsto> JStr sp] else Map.empty
         | None \<Rightarrow> Map.empty)"

definition request_path :: "char model_ref \<Rightarrow> string" where
  "request_path ref =
     (if truthy (version ref) then ''/v1/predictions''
      else ''/v1/models/'' @ owner ref @ ''/'' @ name ref @ ''/predictions'')"

definition request_body :: "char model_ref \<Rightarrow> settings \<Rightarrow> prompt \<Rightarrow> (string \<rightharpoonup> json)" where
  "request_body ref st prompt =
     (case version ref of
        Some v \<Rightarrow> if truthy (Some v) then [''version'' \<mapsto> JStr v] else Map.empty
      | None \<Rightarrow> Map.empty)
     (''input'' \<mapsto> JObj (request_input st prompt))"

section \<open>The upstream and the HTTP helpers\<close>

text \<open>
  A readable stream as its consumer sees it: the chunks it delivers, in order, and the way it
  ends, either closed (\<open>None\<close>) or failed with an error (\<open>Some e\<close>), as when the connection
  breaks in the middle of a body. A stream that neither ends nor fails is not part of the
  model.
\<close>

record 'a readable =
  chunks :: "'a list"
  failure :: "error option"

text \<open>
  The upstream is the environment of the module: what the API answers to the POST that starts a
  prediction, and what the GET of a stream URL delivers. The body of the second response is
  given as the stream of parsed events it decodes to (\<open>None\<close>: the response has no body).
\<close>

record response =
  status :: nat
  statusText :: string
  payload :: json

record upstream =
  api :: "string \<Rightarrow> (string \<times> string) list \<Rightarrow> json \<Rightarrow> response"
  stream_of :: "string \<Rightarrow> ParsedEvent readable option"

text \<open>The network requests issued, in order.\<close>

datatype net_request =
  Post string "(string \<times> string) list" json
| Get string "(string \<times> string) list"

text \<open>The two schemas of the source (\<^verbatim>\<open>schema.prediction\<close> and \<^verbatim>\<open>schema.error\<close>).\<close>

record urls =
  stream_url :: string

record prediction =
  prediction_output :: "string list option"
  urls :: urls

fun z_string :: "json option \<Rightarrow> string option" where
  "z_string (Some (JStr s)) = Some s"
| "z_string _ = None"

fun z_string_array :: "json list \<Rightarrow> string list option" where
  "z_string_array [] = Some []"
| "z_string_array (j # js) =
     (case z_string (Some j) of
        None \<Rightarrow> None
      | Some s \<Rightarrow> (case z_string_array js of None \<Rightarrow> None | Some ss \<Rightarrow> Some (s # ss)))"

fun z_nullable_string_array :: "json option \<Rightarrow> string list option option" where
  "z_nullable_string_array (Some JNull) = Some None"
| "z_nullable_string_array (Some (JArr js)) =
     (case z_string_array js of None \<Rightarrow> None | Some ss \<Rightarrow> Some (Some ss))"
| "z_nullable_string_array _ = None"

fun schema_urls :: "json option \<Rightarrow> urls option" where
  "schema_urls (Some (JObj u)) =
     (case z_string (u ''stream'') of None \<Rightarrow> None | Some s \<Rightarrow> Some \<lparr>stream_url = s\<rparr>)"
| "schema_urls _ = None"

fun schema_prediction :: "json \<Rightarrow> prediction option" where
  "schema_prediction (JObj p) =
     (case z_nullable_string_array (p ''output'') of
        None \<Rightarrow> None
      | Some out \<Rightarrow>
          (case schema_urls (p ''urls'') of
             None \<Rightarrow> None
           | Some us \<Rightarrow> Some \<lparr>prediction_output = out, urls = us\<rparr>))"
| "schema_prediction _ = None"

record error_body =
  detail :: string

fun schema_error :: "json \<Rightarrow> error_body option" where
  "schema_error (JObj e) =
     (case z_string (e ''detail'') of None \<Rightarrow> None | Some d \<Rightarrow> Some \<lparr>detail = d\<rparr>)"
| "schema_error _ = None"

text \<open>
  Modelled from the spec: \<^verbatim>\<open>postJsonToApi\<close>, \<^verbatim>\<open>createJsonResponseHandler\<close> and
  \<^verbatim>\<open>createJsonErrorResponseHandler\<close> belong to the provider utilities package, whose code
  is not part of this module. Following sections 4.3, 6 and 7 of the specification, the POST
  hands a 2xx response to the success handler, which validates the JSON body against the schema
  and fails with a validation error otherwise; any other response is turned into an error by
  the failure handler and thrown. The failure handler validates the body against the error
  schema and builds the message with \<^verbatim>\<open>errorToMessage\<close>; a body that does not fit gives the
  status text.
\<close>

definition createJsonResponseHandler ::
  "(json \<Rightarrow> 'a option) \<Rightarrow> response \<Rightarrow> error + 'a" where
  "createJsonResponseHandler schema resp =
     (case schema (payload resp) of
        None \<Rightarrow> Inl (TypeValidationError (payload resp))
      | Some v \<Rightarrow> Inr v)"

definition createJsonErrorResponseHandler ::
  "(json \<Rightarrow> 'e option) \<Rightarrow> ('e \<Rightarrow> string) \<Rightarrow> response \<Rightarrow> error" where
  "createJsonErrorResponseHandler errorSchema errorToMessage resp =
     (case errorSchema (payload resp) of
        None \<Rightarrow> APICallError (statusText resp) (status resp)
      | Some e \<Rightarrow> APICallError (errorToMessage e) (status resp))"

definition postJsonToApi ::
  "upstream \<Rightarrow> string \<Rightarrow> (string \<times> string) list \<Rightarrow> json
   \<Rightarrow> (response \<Rightarrow> error + 'a) \<Rightarrow> (response \<Rightarrow> error) \<Rightarrow> error + 'a" where
  "postJsonToApi up url headers body successfulResponseHandler failedResponseHandler =
     (let resp = api up url headers body
      in if 200 \<le> status resp \<and> status resp < 300
         then successfulResponseHandler resp
         else Inl (failedResponseHandler resp))"

section \<open>Starting a prediction and the two entry points\<close>

text \<open>
  The URL, the headers and the body of the POST that \<^verbatim>\<open>makeLanguageModelPrediction\<close> sends
  (lines 159 to 185 of the source).
\<close>

definition post_url :: "char model_ref \<Rightarrow> string" where
  "post_url ref = ''https://api.replicate.com'' @ request_path ref"

definition post_headers :: "string \<Rightarrow> (string \<times> string) list" where
  "post_headers apiKey = [(''Authorization'', ''Bearer '' @ apiKey)]"

text \<open>The call \<^verbatim>\<open>await postJsonToApi({...})\<close> of lines 178 to 193.\<close>

definition post_prediction ::
  "upstream \<Rightarrow> char model_ref \<Rightarrow> string \<Rightarrow> settings \<Rightarrow> prompt \<Rightarrow> error + prediction" where
  "post_prediction up ref apiKey st prompt =
     postJsonToApi up (post_url ref) (post_headers apiKey) (JObj (request_body ref st prompt))
       (createJsonResponseHandler schema_prediction)
       (createJsonErrorResponseHandler schema_error detail)"

text \<open>
  The stream that \<^verbatim>\<open>pipeThrough\<close> returns for a body. Its consumer receives the parts of
  the events that reached \<^verbatim>\<open>transform\<close>. When the controller has been terminated the stream
  is closed, whatever happens to the body afterwards; otherwise it ends as the body does: a
  failure of the body aborts the pipe and is rethrown to the consumer after the parts already
  delivered.
\<close>

definition transcoded :: "ParsedEvent readable \<Rightarrow> stream_part readable" where
  "transcoded body =
     (let c = pipeThrough (chunks body)
      in \<lparr>chunks = queue c, failure = (if terminated c then None else failure body)\<rparr>)"

text \<open>
  \<^verbatim>\<open>makeLanguageModelPrediction\<close>: the result pairs the requests issued with either the
  error thrown or the stream returned. Nothing is caught and nothing is retried: each failure
  ends the call. The source applies the two transformers before it parses the model reference;
  they are pure functions here, so their values are computed where the body is built.
\<close>

definition makeLanguageModelPrediction ::
  "upstream \<Rightarrow> string \<Rightarrow> string \<Rightarrow> prompt \<Rightarrow> settings
   \<Rightarrow> net_request list \<times> (error + stream_part readable)" where
  "makeLanguageModelPrediction up modelId apiKey prompt st =
     (case parseModelId modelId of
        Inl e \<Rightarrow> ([], Inl e)
      | Inr ref \<Rightarrow>
          let post = Post (post_url ref) (post_headers apiKey)
                       (JObj (request_body ref st prompt))
          in (case post_prediction up ref apiKey st prompt of
                Inl e \<Rightarrow> ([post], Inl e)
              | Inr prediction \<Rightarrow>
                  let get = Get (stream_url (urls prediction)) [(''Accept'', ''text/event-stream'')]
                  in (case stream_of up (stream_url (urls prediction)) of
                        None \<Rightarrow> ([post, get], Inl (Error ''Missing response body''))
                      | Some body \<Rightarrow> ([post, get], Inr (transcoded body)))))"

record rawCall =
  rawPrompt :: prompt
  rawSettings :: settings

record call_result =
  rawCall :: rawCall

record generate_result = call_result +
  "text" :: string
  finishReason :: string
  usage :: usage

record stream_result = call_result +
  stream :: "stream_part readable"

text \<open>
  The \<^verbatim>\<open>for await\<close> loop of \<^verbatim>\<open>doGenerate\<close> over the parts of the stream and its end:
  text deltas are pushed onto \<^verbatim>\<open>output\<close>, the first part of another type breaks the loop,
  the loop ends when the stream is closed, and a failure of the stream is rethrown.
\<close>

fun for_await :: "stream_part list \<Rightarrow> error option \<Rightarrow> string list \<Rightarrow> error + string list" where
  "for_await [] None output = Inr output"
| "for_await [] (Some e) output = Inl e"
| "for_await (part # rest) ending output =
     (if part_type part = ''text-delta'' then for_await rest ending (output @ [textDelta part])
      else Inr output)"

definition doGenerate ::
  "upstream \<Rightarrow> string \<Rightarrow> string \<Rightarrow> settings \<Rightarrow> prompt
   \<Rightarrow> net_request list \<times> (error + generate_result)" where
  "doGenerate up apiKey modelId st prompt =
     (case makeLanguageModelPrediction up modelId apiKey prompt st of
        (reqs, Inl e) \<Rightarrow> (reqs, Inl e)
      | (reqs, Inr parts) \<Rightarrow>
          (case for_await (chunks parts) (failure parts) [] of
             Inl e \<Rightarrow> (reqs, Inl e)
           | Inr output \<Rightarrow>
               (reqs,
                Inr \<lparr>rawCall = \<lparr>rawPrompt = prompt, rawSettings = st\<rparr>,
                     text = join [] output,
                     finishReason = ''stop'',
                     usage = \<lparr>promptTokens = 0, completionTokens = 0\<rparr>\<rparr>)))"

definition doStream ::
  "upstream \<Rightarrow> string \<Rightarrow> string \<Rightarrow> settings \<Rightarrow> prompt
   \<Rightarrow> net_request list \<times> (error + stream_result)" where
  "doStream up apiKey modelId st prompt =
     (case makeLanguageModelPrediction up modelId apiKey prompt st of
        (reqs, Inl e) \<Rightarrow> (reqs, Inl e)
      | (reqs, Inr parts) \<Rightarrow>
          (reqs,
           Inr \<lparr>rawCall = \<lparr>rawPrompt = prompt, rawSettings = st\<rparr>,
                stream = parts\<rparr>))"

section \<open>Example upstreams\<close>

text \<open>
  Four upstreams used to run the entry points on concrete inputs: one that streams
  \<open>Hello\<close>, \<open> world\<close> and then \<open>done\<close>, one that closes the stream after two outputs
  without a \<open>done\<close> event, one whose stream breaks after one output, and one that answers
  the POST with status 429 and a \<open>detail\<close> message.
\<close>

definition prediction_created :: response where
  "prediction_created =
     \<lparr>status = 201, statusText = ''Created'',
      payload = JObj [''output'' \<mapsto> JNull,
                      ''urls'' \<mapsto> JObj [''stream'' \<mapsto> JStr ''https://stream.example/p1'']]\<rparr>"

definition upstream_hello :: upstream where
  "upstream_hello =
     \<lparr>api = (\<lambda>url headers body. prediction_created),
      stream_of = (\<lambda>u. if u = ''https://stream.example/p1''
         then Some \<lparr>chunks = [\<lparr>data = ''Hello'', event = Some ''output''\<rparr>,
                              \<lparr>data = '' world'', event = Some ''output''\<rparr>,
                              \<lparr>data = [], event = Some ''done''\<rparr>],
                    failure = None\<rparr>
         else None)\<rparr>"

definition upstream_cut :: upstream where
  "upstream_cut =
     \<lparr>api = (\<lambda>url headers body. prediction_created),
      stream_of = (\<lambda>u. if u = ''https://stream.example/p1''
         then Some \<lparr>chunks = [\<lparr>data = ''Hel'', event = Some ''output''\<rparr>,
                              \<lparr>data = ''lo'', event = Some ''output''\<rparr>],
                    failure = None\<rparr>
         else None)\<rparr>"


definition upstream_rate_limited :: upstream where
  "upstream_rate_limited =
     \<lparr>api = (\<lambda>url headers body.
         \<lparr>status = 429, statusText = ''Too Many Requests'',
          payload = JObj [''detail'' \<mapsto> JStr ''rate limited'']\<rparr>),
      stream_of = (\<lambda>u. None)\<rparr>"

section \<open>Properties of the stream transcoder\<close>

lemma pipe_loop_terminated: "terminated c \<Longrightarrow> pipe_loop evs c = c"
  by (cases evs) simp_all

lemma pipe_loop_queue:
  "\<not> terminated c \<Longrightarrow>
   queue (pipe_loop evs c) =
     queue c
     @ map (\<lambda>e. TextDelta (data e))
         (filter (\<lambda>e. event e = Some ''output'')
            (takeWhile (\<lambda>e. event e \<noteq> Some ''done'') evs))
     @ (if \<exists>e \<in> set evs. event e = Some ''done''
        then [Finish ''stop'' \<lparr>promptTokens = 0, completionTokens = 0\<rparr>] else [])"
proof (induction evs arbitrary: c)
  case Nil
  then show ?case by simp
next
  case (Cons ev evs)
  show ?case
  proof (cases "event ev = Some ''done''")
    case True
    then show ?thesis
      using Cons.prems
      by (simp add: transform_def terminate_def enqueue_def pipe_loop_terminated)
  next
    case False
    then have nt: "\<not> terminated (transform ev c)"
      using Cons.prems by (simp add: transform_def enqueue_def)
    show ?thesis
      using False Cons.prems Cons.IH [OF nt]
      by (simp add: transform_def enqueue_def)
  qed
qed

lemma pipe_loop_flag:
  "\<not> terminated c \<Longrightarrow>
   terminated (pipe_loop evs c) = (\<exists>e \<in> set evs. event e = Some ''done'')"
proof (induction evs arbitrary: c)
  case Nil
  then show ?case by simp
next
  case (Cons ev evs)
  show ?case
  proof (cases "event ev = Some ''done''")
    case True
    then show ?thesis
      using Cons.prems
      by (simp add: transform_def terminate_def enqueue_def pipe_loop_terminated)
  next
    case False
    then have nt: "\<not> terminated (transform ev c)"
      using Cons.prems by (simp add: transform_def enqueue_def)
    show ?thesis
      using False Cons.prems Cons.IH [OF nt] by simp
  qed
qed

text \<open>
  Claim C1. The parts emitted for a sequence of parsed events are, in arrival order, one
  text-delta part carrying the raw data for every \<open>output\<close> event that arrives before the first
  \<open>done\<close> event, followed by exactly one finish part (reason \<open>stop\<close>, zero token counts) if a
  \<open>done\<close> event arrives at all; the stream is terminated exactly when a \<open>done\<close> event has
  arrived, nothing is emitted for any event after it, and an event with any other name (or
  none) emits nothing and does not terminate the stream.
\<close>

theorem transcoder_parts:
  "queue (pipeThrough events) =
     map (\<lambda>e. TextDelta (data e))
       (filter (\<lambda>e. event e = Some ''output'')
          (takeWhile (\<lambda>e. event e \<noteq> Some ''done'') events))
     @ (if \<exists>e \<in> set events. event e = Some ''done''
        then [Finish ''stop'' \<lparr>promptTokens = 0, completionTokens = 0\<rparr>] else [])
   \<and> terminated (pipeThrough events) = (\<exists>e \<in> set events. event e = Some ''done'')"
  by (simp add: pipeThrough_def pipe_loop_queue pipe_loop_flag)

theorem transcoder_parts_witness:
  "queue (pipeThrough
     [\<lparr>data = ''Hello'', event = Some ''output''\<rparr>,
      \<lparr>data = ''x'', event = Some ''ping''\<rparr>,
      \<lparr>data = '' world'', event = Some ''output''\<rparr>,
      \<lparr>data = '''', event = Some ''done''\<rparr>,
      \<lparr>data = ''late'', event = Some ''output''\<rparr>]) =
   [TextDelta ''Hello'', TextDelta '' world'',
    Finish ''stop'' \<lparr>promptTokens = 0, completionTokens = 0\<rparr>]"
  using transcoder_parts
    [of "[\<lparr>data = ''Hello'', event = Some ''output''\<rparr>,
      \<lparr>data = ''x'', event = Some ''ping''\<rparr>,
      \<lparr>data = '' world'', event = Some ''output''\<rparr>,
      \<lparr>data = '''', event = Some ''done''\<rparr>,
      \<lparr>data = ''late'', event = Some ''output''\<rparr>]"]
  by simp


section \<open>Properties of the model reference parser\<close>

lemma star_greedy_takeWhile:
  assumes "\<And>a c cs. P c \<Longrightarrow> k a (c # cs) = None"
  shows "star_greedy P k acc s = k (acc @ takeWhile P s) (dropWhile P s)"
proof (induction s arbitrary: acc)
  case Nil
  show ?case by simp
next
  case (Cons c cs)
  show ?case
  proof (cases "P c")
    case True
    have step: "star_greedy P k (acc @ [c]) cs = k (acc @ c # takeWhile P cs) (dropWhile P cs)"
      using Cons.IH [of "acc @ [c]"] by simp
    show ?thesis
      using True assms [OF True, of acc cs]
      by (simp add: step split: option.split)
  next
    case False
    then show ?thesis by simp
  qed
qed

lemma plus_greedy_takeWhile:
  assumes "\<And>a c cs. P c \<Longrightarrow> k a (c # cs) = None"
  shows "plus_greedy P k s =
           (if takeWhile P s = [] then None else k (takeWhile P s) (dropWhile P s))"
proof (cases s)
  case Nil
  then show ?thesis by simp
next
  case (Cons c cs)
  then show ?thesis
    using star_greedy_takeWhile [of P k "[c]" cs, OF assms] by simp
qed

lemma version_part:
  "plus_greedy dot (\<lambda>v. eoi (g v)) s =
     (if s \<noteq> [] \<and> (\<forall>x \<in> set s. dot x) then Some (g s) else None)"
proof -
  have eq: "plus_greedy dot (\<lambda>v. eoi (g v)) s =
      (if takeWhile dot s = [] then None
       else eoi (g (takeWhile dot s))
              (dropWhile dot s))"
    by (rule plus_greedy_takeWhile) (simp add: eoi_def)
  show ?thesis
  proof (cases "\<forall>x \<in> set s. dot x")
    case True
    then have tw: "takeWhile dot s = s"
      and dw: "dropWhile dot s = []"
      by (simp_all add: takeWhile_eq_all_conv)
    show ?thesis unfolding eq tw dw using True by (simp add: eoi_def)
  next
    case False
    then show ?thesis by (auto simp: eq eoi_def)
  qed
qed

lemma name_cont:
  "(case lit colon
            (plus_greedy dot
               (\<lambda>v. eoi \<lparr>owner = ow, name = nm, version = Some v\<rparr>)) rest of
      Some r \<Rightarrow> Some r
    | None \<Rightarrow> eoi \<lparr>owner = ow, name = nm, version = None\<rparr> rest) = tail_groups colon dot ow nm rest"
  by (cases rest) (simp_all add: version_part tail_groups_def eoi_def)

lemma ref_regex_on_closed:
  "ref_regex_on slash colon dot s =
     (let ow = takeWhile (\<lambda>c. c \<noteq> slash) s;
          r1 = dropWhile (\<lambda>c. c \<noteq> slash) s
      in if ow = [] then None
         else (case r1 of
                 [] \<Rightarrow> None
               | _ # r2 \<Rightarrow>
                   let nm = takeWhile (\<lambda>c. c \<noteq> slash \<and> c \<noteq> colon) r2;
                       r3 = dropWhile (\<lambda>c. c \<noteq> slash \<and> c \<noteq> colon) r2
                   in if nm = [] then None else tail_groups colon dot ow nm r3))"
proof -
  have k2: "\<And>ow a c cs. c \<noteq> slash \<and> c \<noteq> colon \<Longrightarrow> tail_groups colon dot ow a (c # cs) = None"
    by (simp add: tail_groups_def)
  have inner: "\<And>ow r2.
      plus_greedy (\<lambda>c. c \<noteq> slash \<and> c \<noteq> colon) (tail_groups colon dot ow) r2 =
        (let nm = takeWhile (\<lambda>c. c \<noteq> slash \<and> c \<noteq> colon) r2;
             r3 = dropWhile (\<lambda>c. c \<noteq> slash \<and> c \<noteq> colon) r2
         in if nm = [] then None else tail_groups colon dot ow nm r3)"
    using plus_greedy_takeWhile
      [where P = "\<lambda>c. c \<noteq> slash \<and> c \<noteq> colon" and k = "tail_groups colon dot ow" for ow, OF k2]
    by (simp add: Let_def)
  have k1: "\<And>a c cs. c \<noteq> slash \<Longrightarrow>
      (\<lambda>ow. lit slash (plus_greedy (\<lambda>c. c \<noteq> slash \<and> c \<noteq> colon) (tail_groups colon dot ow)))
        a (c # cs) = None"
    by simp
  have "ref_regex_on slash colon dot s =
      plus_greedy (\<lambda>c. c \<noteq> slash)
        (\<lambda>ow. lit slash (plus_greedy (\<lambda>c. c \<noteq> slash \<and> c \<noteq> colon) (tail_groups colon dot ow))) s"
    by (simp add: ref_regex_on_def name_cont)
  also have "\<dots> =
      (let ow = takeWhile (\<lambda>c. c \<noteq> slash) s;
           r1 = dropWhile (\<lambda>c. c \<noteq> slash) s
       in if ow = [] then None
          else lit slash (plus_greedy (\<lambda>c. c \<noteq> slash \<and> c \<noteq> colon) (tail_groups colon dot ow)) r1)"
    using plus_greedy_takeWhile
      [where P = "\<lambda>c. c \<noteq> slash"
         and k = "\<lambda>ow. lit slash
                    (plus_greedy (\<lambda>c. c \<noteq> slash \<and> c \<noteq> colon) (tail_groups colon dot ow))"
         and s = s, OF k1]
    by (simp add: Let_def)
  also have "\<dots> =
     (let ow = takeWhile (\<lambda>c. c \<noteq> slash) s;
          r1 = dropWhile (\<lambda>c. c \<noteq> slash) s
      in if ow = [] then None
         else (case r1 of
                 [] \<Rightarrow> None
               | _ # r2 \<Rightarrow>
                   let nm = takeWhile (\<lambda>c. c \<noteq> slash \<and> c \<noteq> colon) r2;
                       r3 = dropWhile (\<lambda>c. c \<noteq> slash \<and> c \<noteq> colon) r2
                   in if nm = [] then None else tail_groups colon dot ow nm r3))"
  proof (cases "dropWhile (\<lambda>c. c \<noteq> slash) s")
    case Nil
    show ?thesis unfolding Let_def Nil by simp
  next
    case (Cons c r2)
    then have "c = slash"
      using hd_dropWhile [of "\<lambda>c. c \<noteq> slash" s] by auto
    with Cons show ?thesis by (simp add: Let_def inner)
  qed
  finally show ?thesis .
qed


lemma split_at_stop:
  "\<forall>x \<in> set xs. P x \<Longrightarrow> \<not> P y \<Longrightarrow>
   takeWhile P (xs @ y # ys) = xs \<and> dropWhile P (xs @ y # ys) = y # ys"
  by (induction xs) simp_all

lemma split_at_end:
  "\<forall>x \<in> set xs. P x \<Longrightarrow> takeWhile P xs = xs \<and> dropWhile P xs = []"
  by (induction xs) simp_all

lemma valid_ref_on_matches:
  assumes "valid_ref_on slash colon dot s r"
  shows "ref_regex_on slash colon dot s = Some r"
proof -
  let ?P1 = "\<lambda>c. c \<noteq> slash"
  let ?P2 = "\<lambda>c. c \<noteq> slash \<and> c \<noteq> colon"
  from assms have o: "owner r \<noteq> []" "\<forall>x \<in> set (owner r). ?P1 x"
    and n: "name r \<noteq> []" "\<forall>x \<in> set (name r). ?P2 x"
    by (auto simp: valid_ref_on_def)
  show ?thesis
  proof (cases "version r")
    case None
    with assms have s: "s = owner r @ slash # name r"
      by (simp add: valid_ref_on_def)
    have 1: "takeWhile ?P1 s = owner r" "dropWhile ?P1 s = slash # name r"
      unfolding s using split_at_stop [of "owner r" ?P1 "slash" "name r"] o by simp_all
    have 2: "takeWhile ?P2 (name r) = name r" "dropWhile ?P2 (name r) = []"
      using split_at_end [of "name r" ?P2] n by simp_all
    have "ref_regex_on slash colon dot s = Some \<lparr>owner = owner r, name = name r, version = None\<rparr>"
      unfolding ref_regex_on_closed Let_def 1 list.case 2 using o n
      by (simp add: tail_groups_def)
    with None show ?thesis by simp
  next
    case (Some v)
    with assms have s: "s = owner r @ slash # (name r @ colon # v)"
      and v: "v \<noteq> []" "\<forall>c \<in> set v. dot c"
      by (simp_all add: valid_ref_on_def)
    have 1: "takeWhile ?P1 s = owner r"
      "dropWhile ?P1 s = slash # (name r @ colon # v)"
      unfolding s
      using split_at_stop [of "owner r" ?P1 "slash" "name r @ colon # v"] o
      by simp_all
    have 2: "takeWhile ?P2 (name r @ colon # v) = name r"
      "dropWhile ?P2 (name r @ colon # v) = colon # v"
      using split_at_stop [of "name r" ?P2 "colon" v] n by simp_all
    have "ref_regex_on slash colon dot s = Some \<lparr>owner = owner r, name = name r, version = Some v\<rparr>"
      unfolding ref_regex_on_closed Let_def 1 list.case 2 using o n v
      by (simp add: tail_groups_def)
    with Some show ?thesis by simp
  qed
qed

lemma matches_valid_ref_on:
  assumes "ref_regex_on slash colon dot s = Some r"
  shows "valid_ref_on slash colon dot s r"
proof -
  let ?P1 = "\<lambda>c. c \<noteq> slash"
  let ?P2 = "\<lambda>c. c \<noteq> slash \<and> c \<noteq> colon"
  define ow where "ow = takeWhile ?P1 s"
  define r1 where "r1 = dropWhile ?P1 s"
  have s: "s = ow @ r1" by (simp add: ow_def r1_def)
  have ow: "\<forall>x \<in> set ow. ?P1 x"
    unfolding ow_def by (auto dest: set_takeWhileD)
  from assms have c1: "(if ow = [] then None
         else (case r1 of
                 [] \<Rightarrow> None
               | _ # r2 \<Rightarrow>
                   let nm = takeWhile ?P2 r2; r3 = dropWhile ?P2 r2
                   in if nm = [] then None else tail_groups colon dot ow nm r3)) = Some r"
    unfolding ref_regex_on_closed ow_def r1_def Let_def by simp
  then have ow_ne: "ow \<noteq> []" by (auto split: if_splits)
  from c1 ow_ne obtain c r2 where r1: "r1 = c # r2"
    by (cases r1) auto
  have c: "c = slash"
    using hd_dropWhile [of ?P1 s] r1 unfolding r1_def by auto
  define nm where "nm = takeWhile ?P2 r2"
  define r3 where "r3 = dropWhile ?P2 r2"
  have r2: "r2 = nm @ r3" by (simp add: nm_def r3_def)
  have nm: "\<forall>x \<in> set nm. ?P2 x"
    unfolding nm_def by (auto dest: set_takeWhileD)
  from ow have ow': "slash \<notin> set ow" by blast
  from nm have nm': "slash \<notin> set nm" "colon \<notin> set nm" by blast+
  from c1 ow_ne r1 have c2: "(if nm = [] then None else tail_groups colon dot ow nm r3) = Some r"
    by (simp add: Let_def nm_def r3_def split: if_splits)
  then have nm_ne: "nm \<noteq> []" and tg: "tail_groups colon dot ow nm r3 = Some r"
    by (auto split: if_splits)
  show ?thesis
  proof (cases r3)
    case Nil
    with tg have "r = \<lparr>owner = ow, name = nm, version = None\<rparr>"
      by (simp add: tail_groups_def)
    then show ?thesis
      using ow' nm' ow_ne nm_ne s r1 c r2 Nil by (simp add: valid_ref_on_def)
  next
    case (Cons d v)
    with tg have d: "d = colon" and v: "v \<noteq> []" "\<forall>x \<in> set v. dot x"
      and r: "r = \<lparr>owner = ow, name = nm, version = Some v\<rparr>"
      by (auto simp: tail_groups_def split: if_splits)
    show ?thesis
      using ow' nm' ow_ne nm_ne s r1 c r2 Cons d v r by (simp add: valid_ref_on_def)
  qed
qed

lemma valid_ref_on_char:
  "valid_ref_on CHR ''/'' CHR '':'' (\<lambda>c. \<not> line_terminator c) s r = valid_ref s r"
  by (simp add: valid_ref_on_def valid_ref_def)

lemma valid_ref_matches: "valid_ref s r \<Longrightarrow> ref_regex s = Some r"
  unfolding ref_regex_def valid_ref_on_char [symmetric] by (rule valid_ref_on_matches)

lemma matches_valid_ref: "ref_regex s = Some r \<Longrightarrow> valid_ref s r"
  unfolding ref_regex_def valid_ref_on_char [symmetric] by (rule matches_valid_ref_on)

lemma valid_ref_on_utf16:
  "valid_ref_on 0x2F 0x3A (\<lambda>c. \<not> line_terminator_utf16 c) s r = valid_ref_utf16 s r"
  by (cases "version r") (simp_all add: valid_ref_on_def valid_ref_utf16_def line_terminator_utf16_def)

lemma valid_ref_utf16_matches: "valid_ref_utf16 s r \<Longrightarrow> ref_regex_utf16 s = Some r"
  unfolding ref_regex_utf16_def valid_ref_on_utf16 [symmetric] by (rule valid_ref_on_matches)

lemma matches_valid_ref_utf16: "ref_regex_utf16 s = Some r \<Longrightarrow> valid_ref_utf16 s r"
  unfolding ref_regex_utf16_def valid_ref_on_utf16 [symmetric] by (rule matches_valid_ref_on)

lemma valid_ref_utf16_slash: "valid_ref_utf16 s r \<Longrightarrow> 0x2F \<in> set s"
  by (auto simp: valid_ref_utf16_def split: option.splits)

text \<open>
  Claim C3, as amended. A JavaScript string made of a non-empty owner without slash, a slash,
  a non-empty name without slash or colon and, optionally, a colon and a non-empty version
  without line terminator (line feed, carriage return, U+2028, U+2029) is parsed into exactly
  these parts; every other string fails with the error whose message names the string and the
  expected format.
\<close>

theorem parseModelId_grammar:
  "(valid_ref_utf16 ref r \<longrightarrow> parseModelId_utf16 ref = Inr r)
   \<and> ((\<forall>r'. \<not> valid_ref_utf16 ref r') \<longrightarrow>
        parseModelId_utf16 ref =
          Inl (utf16 ''Invalid reference to model version: '' @ ref
                 @ utf16 ''. Expected format: owner/name or owner/name:version''))"
proof (intro conjI impI)
  assume "valid_ref_utf16 ref r"
  then show "parseModelId_utf16 ref = Inr r"
    by (simp add: parseModelId_utf16_def valid_ref_utf16_matches)
next
  assume "\<forall>r'. \<not> valid_ref_utf16 ref r'"
  then have "ref_regex_utf16 ref = None"
    using matches_valid_ref_utf16 [of ref] by (cases "ref_regex_utf16 ref") auto
  then show "parseModelId_utf16 ref =
          Inl (utf16 ''Invalid reference to model version: '' @ ref
                 @ utf16 ''. Expected format: owner/name or owner/name:version'')"
    by (simp add: parseModelId_utf16_def)
qed

theorem parseModelId_grammar_witness:
  "parseModelId_utf16 (utf16 ''meta/llama:abc'') =
     Inr \<lparr>owner = utf16 ''meta'', name = utf16 ''llama'', version = Some (utf16 ''abc'')\<rparr>
   \<and> parseModelId_utf16 ([0x6A21, 0x578B] @ utf16 ''/v2'') =
     Inr \<lparr>owner = [0x6A21, 0x578B], name = utf16 ''v2'', version = None\<rparr>
   \<and> parseModelId_utf16 (utf16 ''llama'') =
       Inl (utf16 ''Invalid reference to model version: llama. Expected format: owner/name or owner/name:version'')"
proof -
  have v: "valid_ref_utf16 (utf16 ''meta/llama:abc'')
      \<lparr>owner = utf16 ''meta'', name = utf16 ''llama'', version = Some (utf16 ''abc'')\<rparr>"
    by (simp add: valid_ref_utf16_def utf16_def)
  have w: "valid_ref_utf16 ([0x6A21, 0x578B] @ utf16 ''/v2'')
      \<lparr>owner = [0x6A21, 0x578B], name = utf16 ''v2'', version = None\<rparr>"
    by (simp add: valid_ref_utf16_def utf16_def)
  have "0x2F \<notin> set (utf16 ''llama'')" by (simp add: utf16_def)
  then have n: "\<forall>r'. \<not> valid_ref_utf16 (utf16 ''llama'') r'"
    using valid_ref_utf16_slash [of "utf16 ''llama''"] by auto
  have m: "utf16 ''Invalid reference to model version: '' @ utf16 ''llama''
       @ utf16 ''. Expected format: owner/name or owner/name:version''
     = utf16 ''Invalid reference to model version: llama. Expected format: owner/name or owner/name:version''"
    by (simp add: utf16_def)
  show ?thesis
    using parseModelId_grammar [of "utf16 ''meta/llama:abc''"
        "\<lparr>owner = utf16 ''meta'', name = utf16 ''llama'', version = Some (utf16 ''abc'')\<rparr>"]
      parseModelId_grammar [of "[0x6A21, 0x578B] @ utf16 ''/v2''"
        "\<lparr>owner = [0x6A21, 0x578B], name = utf16 ''v2'', version = None\<rparr>"]
      parseModelId_grammar [of "utf16 ''llama''"] v w n m
    by simp
qed

text \<open>
  The claim as stated fails for a version that holds a line terminator: the string
  \<^verbatim>\<open>o/n:v\<close> followed by a line feed, or by U+2028, is rejected, although everything after
  the first colon would be its version.
\<close>

theorem parseModelId_line_terminator_counterexample:
  "parseModelId_utf16 (utf16 ''o'' @ utf16 ''/'' @ utf16 ''n'' @ utf16 '':'' @ utf16 ''v'' @ [0x0A]) \<noteq>
     Inr \<lparr>owner = utf16 ''o'', name = utf16 ''n'', version = Some (utf16 ''v'' @ [0x0A])\<rparr>
   \<and> parseModelId_utf16 (utf16 ''o'' @ utf16 ''/'' @ utf16 ''n'' @ utf16 '':'' @ utf16 ''v'' @ [0x2028]) \<noteq>
     Inr \<lparr>owner = utf16 ''o'', name = utf16 ''n'', version = Some (utf16 ''v'' @ [0x2028])\<rparr>"
  by (simp add: parseModelId_utf16_def ref_regex_utf16_def ref_regex_on_def eoi_def utf16_def
      line_terminator_utf16_def)

lemma code_unit_eq_iff:
  "n < 65536 \<Longrightarrow> (of_nat (of_char c) :: 16 word) = of_nat n \<longleftrightarrow> of_char c = n"
proof -
  assume n: "n < 65536"
  have c: "(of_char c :: nat) < 65536"
    by (rule less_trans [OF nat_of_char_less_256]) simp
  show ?thesis
    using n c by (simp add: word_of_nat_eq_iff take_bit_nat_eq_self)
qed

lemma code_unit_slash: "(of_nat (of_char c) :: 16 word) = 0x2F \<longleftrightarrow> c = CHR ''/''"
proof -
  have "(of_nat (of_char c) :: 16 word) = of_nat 47 \<longleftrightarrow> of_char c = (47 :: nat)"
    by (rule code_unit_eq_iff) simp
  moreover have "of_char c = (47 :: nat) \<longleftrightarrow> of_char c = (of_char CHR ''/'' :: nat)" by simp
  ultimately show ?thesis by (simp del: of_char_Char)
qed

lemma code_unit_colon: "(of_nat (of_char c) :: 16 word) = 0x3A \<longleftrightarrow> c = CHR '':''"
proof -
  have "(of_nat (of_char c) :: 16 word) = of_nat 58 \<longleftrightarrow> of_char c = (58 :: nat)"
    by (rule code_unit_eq_iff) simp
  moreover have "of_char c = (58 :: nat) \<longleftrightarrow> of_char c = (of_char CHR '':'' :: nat)" by simp
  ultimately show ?thesis by (simp del: of_char_Char)
qed

lemma code_unit_line_terminator:
  "line_terminator_utf16 (of_nat (of_char c)) \<longleftrightarrow> line_terminator c"
proof -
  have a: "(of_nat (of_char c) :: 16 word) = of_nat 10 \<longleftrightarrow> of_char c = (10 :: nat)"
    by (rule code_unit_eq_iff) simp
  have b: "(of_nat (of_char c) :: 16 word) = of_nat 13 \<longleftrightarrow> of_char c = (13 :: nat)"
    by (rule code_unit_eq_iff) simp
  have d: "(of_nat (of_char c) :: 16 word) = of_nat 8232 \<longleftrightarrow> of_char c = (8232 :: nat)"
    by (rule code_unit_eq_iff) simp
  have e: "(of_nat (of_char c) :: 16 word) = of_nat 8233 \<longleftrightarrow> of_char c = (8233 :: nat)"
    by (rule code_unit_eq_iff) simp
  have a': "of_char c = (10 :: nat) \<longleftrightarrow> c = CHR 0x0A"
  proof -
    have "of_char c = (10 :: nat) \<longleftrightarrow> of_char c = (of_char (CHR 0x0A) :: nat)" by simp
    then show ?thesis by (simp del: of_char_Char)
  qed
  have b': "of_char c = (13 :: nat) \<longleftrightarrow> c = CHR 0x0D"
  proof -
    have "of_char c = (13 :: nat) \<longleftrightarrow> of_char c = (of_char (CHR 0x0D) :: nat)" by simp
    then show ?thesis by (simp del: of_char_Char)
  qed
  have d': "of_char c \<noteq> (8232 :: nat)" and e': "of_char c \<noteq> (8233 :: nat)"
    using nat_of_char_less_256 [of c] by linarith+
  show ?thesis
    using a b d e a' b' d' e' by (simp add: line_terminator_utf16_def line_terminator_def)
qed


lemma tail_groups_map:
  assumes co: "\<And>c. f c = colon' \<longleftrightarrow> c = colon" and dt: "\<And>c. dot' (f c) = dot c"
  shows "tail_groups colon' dot' (map f ow) (map f nm) (map f rest) =
     map_option (\<lambda>r. \<lparr>owner = map f (owner r), name = map f (name r),
                       version = map_option (map f) (version r)\<rparr>)
       (tail_groups colon dot ow nm rest)"
  by (cases rest) (simp_all add: tail_groups_def co dt)

lemma ref_regex_on_map:
  assumes sl: "\<And>c. f c = slash' \<longleftrightarrow> c = slash"
    and co: "\<And>c. f c = colon' \<longleftrightarrow> c = colon"
    and dt: "\<And>c. dot' (f c) = dot c"
  shows "ref_regex_on slash' colon' dot' (map f s) =
     map_option (\<lambda>r. \<lparr>owner = map f (owner r), name = map f (name r),
                       version = map_option (map f) (version r)\<rparr>)
       (ref_regex_on slash colon dot s)"
proof -
  have p1: "(\<lambda>c. c \<noteq> slash') \<circ> f = (\<lambda>c. c \<noteq> slash)"
    by (rule ext) (simp add: sl)
  have p2: "(\<lambda>c. c \<noteq> slash' \<and> c \<noteq> colon') \<circ> f = (\<lambda>c. c \<noteq> slash \<and> c \<noteq> colon)"
    by (rule ext) (simp add: sl co)
  define ow where "ow = takeWhile (\<lambda>c. c \<noteq> slash) s"
  define r1 where "r1 = dropWhile (\<lambda>c. c \<noteq> slash) s"
  have t1: "takeWhile (\<lambda>c. c \<noteq> slash') (map f s) = map f ow"
    and d1: "dropWhile (\<lambda>c. c \<noteq> slash') (map f s) = map f r1"
    by (simp_all add: takeWhile_map dropWhile_map p1 ow_def r1_def)
  show ?thesis
  proof (cases r1)
    case Nil
    then show ?thesis
      unfolding ref_regex_on_closed [of slash' colon' dot' "map f s"]
        ref_regex_on_closed [of slash colon dot s] Let_def t1 d1
        ow_def [symmetric] r1_def [symmetric]
      by simp
  next
    case (Cons c r2)
    define nm where "nm = takeWhile (\<lambda>c. c \<noteq> slash \<and> c \<noteq> colon) r2"
    define r3 where "r3 = dropWhile (\<lambda>c. c \<noteq> slash \<and> c \<noteq> colon) r2"
    have t2: "takeWhile (\<lambda>c. c \<noteq> slash' \<and> c \<noteq> colon') (map f r2) = map f nm"
      and d2: "dropWhile (\<lambda>c. c \<noteq> slash' \<and> c \<noteq> colon') (map f r2) = map f r3"
      by (simp_all add: takeWhile_map dropWhile_map p2 nm_def r3_def)
    have l: "ref_regex_on slash' colon' dot' (map f s) =
        (if map f ow = [] then None
         else if map f nm = [] then None
         else tail_groups colon' dot' (map f ow) (map f nm) (map f r3))"
      unfolding ref_regex_on_closed [of slash' colon' dot' "map f s"] Let_def t1 d1 Cons
      by (simp add: t2 d2)
    have r: "ref_regex_on slash colon dot s =
        (if ow = [] then None
         else if nm = [] then None
         else tail_groups colon dot ow nm r3)"
      unfolding ref_regex_on_closed [of slash colon dot s] Let_def
        ow_def [symmetric] r1_def [symmetric] Cons
      by (simp add: nm_def r3_def)
    show ?thesis
      unfolding l r
      by (simp add: tail_groups_map
            [where f = f and colon' = colon' and colon = colon and dot' = dot' and dot = dot,
             OF co dt])
  qed
qed

lemma utf16_append: "utf16 (a @ b) = utf16 a @ utf16 b"
  by (simp add: utf16_def)

text \<open>
  On strings whose code units are below 256 the two parsers agree: the parser on \<^typ>\<open>string\<close>
  is the restriction of the parser on JavaScript strings.
\<close>

lemma parseModelId_utf16_agrees:
  "parseModelId_utf16 (utf16 s) =
     (case parseModelId s of
        Inl e \<Rightarrow> Inl (utf16 (message e))
      | Inr r \<Rightarrow>
          Inr \<lparr>owner = utf16 (owner r), name = utf16 (name r),
               version = map_option utf16 (version r)\<rparr>)"
proof -
  have m: "ref_regex_utf16 (utf16 s) =
     map_option (\<lambda>r. \<lparr>owner = utf16 (owner r), name = utf16 (name r),
                       version = map_option utf16 (version r)\<rparr>) (ref_regex s)"
    unfolding ref_regex_utf16_def ref_regex_def utf16_def [abs_def]
    by (rule ref_regex_on_map)
      (simp_all add: code_unit_slash code_unit_colon code_unit_line_terminator)
  show ?thesis
  proof (cases "ref_regex s")
    case None
    then have "ref_regex_utf16 (utf16 s) = None" by (simp add: m)
    then have l: "parseModelId_utf16 (utf16 s) =
        Inl (utf16 ''Invalid reference to model version: '' @ utf16 s
               @ utf16 ''. Expected format: owner/name or owner/name:version'')"
      by (simp add: parseModelId_utf16_def)
    have r: "parseModelId s =
        Inl (Error (''Invalid reference to model version: '' @ s
               @ ''. Expected format: owner/name or owner/name:version''))"
      using None by (simp add: parseModelId_def)
    show ?thesis unfolding l r by (simp only: sum.case error.sel utf16_append)
  next
    case (Some r)
    then show ?thesis by (simp add: parseModelId_utf16_def parseModelId_def m)
  qed
qed


section \<open>Properties of the transformers and of the request builder\<close>

lemma join_empty_sep: "join [] xs = concat xs"
  by (induction "[] :: string" xs rule: join.induct) simp_all

lemma transformSystemPrompt_loop_acc:
  "transformSystemPrompt_loop prompt parts = parts @ [c. System c \<leftarrow> prompt]"
  by (induction prompt parts rule: transformSystemPrompt_loop.induct) simp_all

lemma transformSystemPrompt_eq:
  "transformSystemPrompt prompt =
     (if [c. System c \<leftarrow> prompt] = [] then None
      else Some (concat [c. System c \<leftarrow> prompt]))"
  by (simp add: transformSystemPrompt_def transformSystemPrompt_loop_acc join_empty_sep Let_def)

lemma text_parts: "map part_text (filter (\<lambda>c. content_type c = ''text'') content) = [t. TextPart t \<leftarrow> content]"
proof (induction content)
  case Nil
  show ?case by simp
next
  case (Cons c cs)
  then show ?case by (cases c) simp_all
qed

lemma transformPrompt_loop_acc:
  "transformPrompt_loop prompt parts = parts @ concat (map message_texts prompt)"
  by (induction prompt parts rule: transformPrompt_loop.induct) (simp_all add: text_parts)

lemma transformPrompt_eq:
  "transformPrompt prompt = concat (map (join '','') (concat (map message_texts prompt)))"
  by (simp add: transformPrompt_def transformPrompt_loop_acc join_empty_sep)

lemma join_short: "length ts \<le> 1 \<Longrightarrow> join sep ts = concat ts"
proof (cases ts)
  case Nil
  then show ?thesis by simp
next
  case (Cons t ts')
  assume "length ts \<le> 1"
  with Cons have "ts' = []" by simp
  with Cons show ?thesis by simp
qed

text \<open>
  Where every message has at most one text block, the result is the plain concatenation of the
  texts in message order.
\<close>

lemma transformPrompt_single_blocks:
  assumes "\<forall>m \<in> set prompt. \<forall>ts \<in> set (message_texts m). length ts \<le> 1"
  shows "transformPrompt prompt = concat (map concat (concat (map message_texts prompt)))"
proof -
  have "\<forall>ts \<in> set (concat (map message_texts prompt)). join '','' ts = concat ts"
    using assms by (auto intro: join_short)
  then have "map (join '','') (concat (map message_texts prompt))
      = map concat (concat (map message_texts prompt))"
    by (simp cong: map_cong)
  then show ?thesis unfolding transformPrompt_eq by (rule arg_cong)
qed

text \<open>
  Claim C5. The default prompt transformer is meant to concatenate the text blocks of the user
  and assistant messages with nothing in between. Because each message contributes an array to
  \<^verbatim>\<open>parts\<close> and the final \<^verbatim>\<open>join("")\<close> converts an array with commas, two text blocks
  of one message come out separated by a comma: the blocks \<open>a\<close> and \<open>b\<close> of a single user
  message give \<open>a,b\<close>, not \<open>ab\<close>.
\<close>

theorem transformPrompt_comma:
  "transformPrompt [User [TextPart ''a'', TextPart ''b'']] = ''a,b''"
  by (simp add: transformPrompt_def)

lemma for_await_acc:
  "for_await parts ending acc =
     (case ending of
        Some e \<Rightarrow>
          if \<forall>p \<in> set parts. part_type p = ''text-delta'' then Inl e
          else Inr (acc @ map textDelta (takeWhile (\<lambda>p. part_type p = ''text-delta'') parts))
      | None \<Rightarrow>
          Inr (acc @ map textDelta (takeWhile (\<lambda>p. part_type p = ''text-delta'') parts)))"
proof (induction parts arbitrary: acc)
  case Nil
  then show ?case by (cases ending) simp_all
next
  case (Cons part rest)
  then show ?case by (cases ending) simp_all
qed

lemma sysprompt_cases:
  "promptTransformer st = None \<Longrightarrow>
   transformedSystemPrompt st prompt =
     (if [c. System c \<leftarrow> prompt] = [] then None else Some (concat [c. System c \<leftarrow> prompt]))"
  by (simp add: transformedSystemPrompt_def transformSystemPrompt_eq)

lemma system_prompt_present:
  "promptTransformer st = None \<Longrightarrow> concat [c. System c \<leftarrow> prompt] \<noteq> [] \<Longrightarrow>
      request_input st prompt
        (case systemPromptName st of Some n \<Rightarrow> n | None \<Rightarrow> ''system_prompt'') =
        Some (JStr (concat [c. System c \<leftarrow> prompt]))"
proof -
  assume p: "promptTransformer st = None" and n: "concat [c. System c \<leftarrow> prompt] \<noteq> []"
  have "[c. System c \<leftarrow> prompt] \<noteq> []"
  proof
    assume e: "[c. System c \<leftarrow> prompt] = []"
    have "concat [c. System c \<leftarrow> prompt] = []" unfolding e by simp
    with n show False by simp
  qed
  then have "transformedSystemPrompt st prompt = Some (concat [c. System c \<leftarrow> prompt])"
    using sysprompt_cases [OF p, of prompt] by simp
  then show ?thesis using n by (simp add: request_input_def systemPromptKey_def)
qed

lemma system_prompt_absent:
  "promptTransformer st = None \<Longrightarrow> concat [c. System c \<leftarrow> prompt] = [] \<Longrightarrow>
   request_input st prompt =
     (case extraInput st of Some extra \<Rightarrow> extra | None \<Rightarrow> Map.empty)
       ((case promptName st of Some n \<Rightarrow> n | None \<Rightarrow> ''prompt'') \<mapsto> JStr (transformPrompt prompt))"
proof -
  assume p: "promptTransformer st = None" and n: "concat [c. System c \<leftarrow> prompt] = []"
  have "transformedSystemPrompt st prompt = None \<or> transformedSystemPrompt st prompt = Some []"
    using sysprompt_cases [OF p, of prompt] n by (simp split: if_splits)
  then show ?thesis
    using p by (auto simp: request_input_def promptKey_def transformedPrompt_def)
qed


lemma request_input_lookup:
  "request_input st prompt k =
     (case transformedSystemPrompt st prompt of
        Some sp \<Rightarrow>
          if sp \<noteq> [] \<and> k = systemPromptKey st then Some (JStr sp)
          else ((case extraInput st of Some extra \<Rightarrow> extra | None \<Rightarrow> Map.empty)
                  (promptKey st \<mapsto> JStr (transformedPrompt st prompt))) k
      | None \<Rightarrow>
          ((case extraInput st of Some extra \<Rightarrow> extra | None \<Rightarrow> Map.empty)
             (promptKey st \<mapsto> JStr (transformedPrompt st prompt))) k)"
proof (cases "transformedSystemPrompt st prompt")
  case None
  then show ?thesis by (simp add: request_input_def)
next
  case (Some sp)
  then show ?thesis by (simp add: request_input_def map_add_def)
qed

lemma system_value:
  "(case transformedSystemPrompt st prompt of Some sp \<Rightarrow> sp | None \<Rightarrow> []) =
     (case promptTransformer st of
        Some f \<Rightarrow> f prompt
      | None \<Rightarrow> concat [c. System c \<leftarrow> prompt])"
proof (cases "promptTransformer st")
  case None
  then show ?thesis by (simp add: sysprompt_cases)
next
  case (Some f)
  then show ?thesis by (simp add: transformedSystemPrompt_def)
qed

text \<open>
  Claim C6, as amended. With the default transformers, when the concatenation of the contents
  of the system messages is not empty, the input of the request body holds it under the
  configured system-prompt key (\<^verbatim>\<open>systemPromptName\<close>, by default \<open>system_prompt\<close>). When
  it is empty (no system message, or only empty ones) and neither a prompt name nor extra input
  is configured, as under the default settings, the input holds the prompt under \<open>prompt\<close> and
  nothing else: the body has no system-prompt field at all.
\<close>

theorem system_prompt_field:
  "promptTransformer st = None \<Longrightarrow>
   (concat [c. System c \<leftarrow> prompt] \<noteq> [] \<longrightarrow>
      request_input st prompt
        (case systemPromptName st of Some n \<Rightarrow> n | None \<Rightarrow> ''system_prompt'') =
        Some (JStr (concat [c. System c \<leftarrow> prompt])))
   \<and> (concat [c. System c \<leftarrow> prompt] = [] \<and> promptName st = None \<and> extraInput st = None \<longrightarrow>
        request_input st prompt = [''prompt'' \<mapsto> JStr (transformPrompt prompt)])
   \<and> (concat [c. System c \<leftarrow> prompt] = [] \<and> st = default_settings \<longrightarrow>
        request_input st prompt ''system_prompt'' = None)"
proof -
  assume p: "promptTransformer st = None"
  have a: "concat [c. System c \<leftarrow> prompt] \<noteq> [] \<longrightarrow>
      request_input st prompt
        (case systemPromptName st of Some n \<Rightarrow> n | None \<Rightarrow> ''system_prompt'') =
        Some (JStr (concat [c. System c \<leftarrow> prompt]))"
    using system_prompt_present [OF p] by blast
  have b: "concat [c. System c \<leftarrow> prompt] = [] \<and> promptName st = None \<and> extraInput st = None \<longrightarrow>
        request_input st prompt = [''prompt'' \<mapsto> JStr (transformPrompt prompt)]"
  proof (intro impI, elim conjE)
    assume e: "concat [c. System c \<leftarrow> prompt] = []"
      and n: "promptName st = None" and x: "extraInput st = None"
    show "request_input st prompt = [''prompt'' \<mapsto> JStr (transformPrompt prompt)]"
      unfolding system_prompt_absent [OF p e] n x by simp
  qed
  have c: "concat [c. System c \<leftarrow> prompt] = [] \<and> st = default_settings \<longrightarrow>
        request_input st prompt ''system_prompt'' = None"
  proof (intro impI, elim conjE)
    assume e: "concat [c. System c \<leftarrow> prompt] = []" and d: "st = default_settings"
    have n: "promptName st = None" and x: "extraInput st = None"
      unfolding d by (simp_all add: default_settings_def)
    show "request_input st prompt ''system_prompt'' = None"
      unfolding system_prompt_absent [OF p e] n x by simp
  qed
  from a b c show ?thesis by blast
qed

theorem system_prompt_field_witness:
  "request_input default_settings [System ''Be brief.'', User [TextPart ''Hi'']] ''system_prompt''
     = Some (JStr ''Be brief.'')
   \<and> request_input
       \<lparr>promptName = None, promptTransformer = None, systemPromptName = Some ''sys'',
        systemPromptTransformer = None, extraInput = None\<rparr>
       [System ''Be '', User [TextPart ''Hi''], System ''brief.''] ''sys''
     = Some (JStr ''Be brief.'')
   \<and> request_input default_settings [User [TextPart ''Hi'']] = [''prompt'' \<mapsto> JStr ''Hi'']
   \<and> request_input default_settings [User [TextPart ''Hi'']] ''system_prompt'' = None"
  using system_prompt_field [of default_settings "[System ''Be brief.'', User [TextPart ''Hi'']]"]
    system_prompt_field
      [of "\<lparr>promptName = None, promptTransformer = None, systemPromptName = Some ''sys'',
        systemPromptTransformer = None, extraInput = None\<rparr>"
        "[System ''Be '', User [TextPart ''Hi''], System ''brief.'']"]
    system_prompt_field [of default_settings "[User [TextPart ''Hi'']]"]
  by (simp add: default_settings_def transformPrompt_def)

text \<open>
  The claim as stated fails for a prompt whose only system message is empty: the prompt has a
  system message, yet the body has no \<open>system_prompt\<close> field, since the empty string is not
  truthy.
\<close>

theorem system_prompt_empty_counterexample:
  "request_input default_settings [System ''''] ''system_prompt'' = None
   \<and> request_input default_settings [System ''''] ''system_prompt''
       \<noteq> Some (JStr (concat [c. System c \<leftarrow> [System '''']]))"
  by (simp add: request_input_def default_settings_def transformedSystemPrompt_def
      transformedPrompt_def transformSystemPrompt_def promptKey_def systemPromptKey_def)

text \<open>
  Claim C9. Every pair of \<^verbatim>\<open>extraInput\<close> is in the input of the request body, except that
  a key equal to the configured prompt key (\<^verbatim>\<open>promptName\<close>, by default \<open>prompt\<close>) is mapped
  to the transformed prompt, and a key equal to the configured system-prompt key
  (\<^verbatim>\<open>systemPromptName\<close>, by default \<open>system_prompt\<close>) is mapped to the transformed system
  prompt when that field is emitted, that is, when the transformed system prompt is not empty
  (the system prompt wins when both keys coincide). The transformed prompt is the result of the
  supplied \<^verbatim>\<open>promptTransformer\<close>, or of the default transformer when none is supplied; the
  transformed system prompt is the result of the supplied \<^verbatim>\<open>promptTransformer\<close>, or the
  concatenation of the system messages when none is supplied.
\<close>

theorem extraInput_merge:
  "extraInput st = Some extra \<Longrightarrow> extra k = Some v \<Longrightarrow>
   request_input st prompt k =
     Some (let pk = (case promptName st of Some n \<Rightarrow> n | None \<Rightarrow> ''prompt'');
               sk = (case systemPromptName st of Some n \<Rightarrow> n | None \<Rightarrow> ''system_prompt'');
               tp = (case promptTransformer st of
                       Some f \<Rightarrow> f prompt
                     | None \<Rightarrow> transformPrompt prompt);
               sys = (case promptTransformer st of
                        Some f \<Rightarrow> f prompt
                      | None \<Rightarrow> concat [c. System c \<leftarrow> prompt])
           in if sys \<noteq> [] \<and> k = sk then JStr sys
              else if k = pk then JStr tp
              else v)"
proof -
  assume x: "extraInput st = Some extra" and k: "extra k = Some v"
  define sys where "sys = (case promptTransformer st of
                        Some f \<Rightarrow> f prompt
                      | None \<Rightarrow> concat [c. System c \<leftarrow> prompt])"
  have sv: "(case transformedSystemPrompt st prompt of Some sp \<Rightarrow> sp | None \<Rightarrow> []) = sys"
    unfolding sys_def by (rule system_value)
  have tp: "transformedPrompt st prompt =
      (case promptTransformer st of Some f \<Rightarrow> f prompt | None \<Rightarrow> transformPrompt prompt)"
    by (simp add: transformedPrompt_def)
  have "request_input st prompt k =
      Some (if sys \<noteq> [] \<and> k = systemPromptKey st then JStr sys
            else if k = promptKey st then JStr (transformedPrompt st prompt) else v)"
  proof (cases "transformedSystemPrompt st prompt")
    case None
    with sv have "sys = []" by simp
    with None x k show ?thesis by (simp add: request_input_lookup)
  next
    case (Some sp)
    with sv have "sys = sp" by simp
    with Some x k show ?thesis by (simp add: request_input_lookup)
  qed
  then show ?thesis
    unfolding Let_def sys_def tp promptKey_def systemPromptKey_def .
qed

text \<open>
  Claim C7. When \<^verbatim>\<open>promptTransformer\<close> is supplied, the transformed system prompt is the
  result of that same transformer on the prompt, and this is the value placed under the
  system-prompt key whenever the field is emitted; when it is not supplied, the default
  system-prompt transformer is used. The field \<^verbatim>\<open>systemPromptTransformer\<close> is never read:
  replacing it by any value leaves the input of the body, the requests issued and the stream
  returned by \<^verbatim>\<open>makeLanguageModelPrediction\<close> unchanged.
\<close>

theorem system_prompt_transformer_unused:
  "(\<forall>f. promptTransformer st = Some f \<longrightarrow>
      transformedSystemPrompt st prompt = Some (f prompt)
      \<and> (f prompt \<noteq> [] \<longrightarrow>
           request_input st prompt (systemPromptKey st) = Some (JStr (f prompt))))
   \<and> (promptTransformer st = None \<longrightarrow>
        transformedSystemPrompt st prompt = transformSystemPrompt prompt)
   \<and> request_input (st\<lparr>systemPromptTransformer := g\<rparr>) prompt = request_input st prompt
   \<and> makeLanguageModelPrediction up modelId apiKey prompt (st\<lparr>systemPromptTransformer := g\<rparr>)
       = makeLanguageModelPrediction up modelId apiKey prompt st"
proof -
  have keys: "promptKey (st\<lparr>systemPromptTransformer := g\<rparr>) = promptKey st"
    "systemPromptKey (st\<lparr>systemPromptTransformer := g\<rparr>) = systemPromptKey st"
    by (simp_all add: promptKey_def systemPromptKey_def)
  have vals: "transformedPrompt (st\<lparr>systemPromptTransformer := g\<rparr>) prompt
      = transformedPrompt st prompt"
    "transformedSystemPrompt (st\<lparr>systemPromptTransformer := g\<rparr>) prompt
      = transformedSystemPrompt st prompt"
    by (simp_all add: transformedPrompt_def transformedSystemPrompt_def)
  have inp: "request_input (st\<lparr>systemPromptTransformer := g\<rparr>) prompt = request_input st prompt"
    unfolding request_input_def keys vals by simp
  have body: "\<And>ref. request_body ref (st\<lparr>systemPromptTransformer := g\<rparr>) prompt
      = request_body ref st prompt"
    by (simp add: request_body_def inp)
  have "makeLanguageModelPrediction up modelId apiKey prompt (st\<lparr>systemPromptTransformer := g\<rparr>)
       = makeLanguageModelPrediction up modelId apiKey prompt st"
    unfolding makeLanguageModelPrediction_def post_prediction_def body by (rule refl)
  with inp show ?thesis
    by (auto simp: request_input_def transformedSystemPrompt_def)
qed


section \<open>Properties of the request and of the entry points\<close>

text \<open>
  Claim C4. For a model reference that parses, a reference with a version is routed to
  \<^verbatim>\<open>/v1/predictions\<close> and the body holds the version string under \<open>version\<close>; a reference
  without a version is routed to \<^verbatim>\<open>/v1/models/{owner}/{name}/predictions\<close> and the body has
  no \<open>version\<close> key. In both cases the body holds the input object, and the first request
  issued is the POST of this body to this path with the bearer token.
\<close>

theorem request_routing:
  "parseModelId modelId = Inr ref \<Longrightarrow>
   (case version ref of
      Some v \<Rightarrow>
        request_path ref = ''/v1/predictions''
        \<and> request_body ref st prompt ''version'' = Some (JStr v)
    | None \<Rightarrow>
        request_path ref = ''/v1/models/'' @ owner ref @ ''/'' @ name ref @ ''/predictions''
        \<and> request_body ref st prompt ''version'' = None)
   \<and> request_body ref st prompt ''input'' = Some (JObj (request_input st prompt))
   \<and> fst (makeLanguageModelPrediction up modelId apiKey prompt st) \<noteq> []
   \<and> hd (fst (makeLanguageModelPrediction up modelId apiKey prompt st)) =
       Post (''https://api.replicate.com'' @ request_path ref)
         [(''Authorization'', ''Bearer '' @ apiKey)] (JObj (request_body ref st prompt))"
proof -
  assume p: "parseModelId modelId = Inr ref"
  then have "ref_regex modelId = Some ref"
    by (simp add: parseModelId_def split: option.splits)
  then have v: "valid_ref modelId ref" by (rule matches_valid_ref)
  have route: "(case version ref of
      Some v \<Rightarrow>
        request_path ref = ''/v1/predictions''
        \<and> request_body ref st prompt ''version'' = Some (JStr v)
    | None \<Rightarrow>
        request_path ref = ''/v1/models/'' @ owner ref @ ''/'' @ name ref @ ''/predictions''
        \<and> request_body ref st prompt ''version'' = None)"
    using v by (auto simp: valid_ref_def request_path_def request_body_def split: option.splits)
  have inp: "request_body ref st prompt ''input'' = Some (JObj (request_input st prompt))"
    by (simp add: request_body_def)
  have reqs: "fst (makeLanguageModelPrediction up modelId apiKey prompt st) \<noteq> []
     \<and> hd (fst (makeLanguageModelPrediction up modelId apiKey prompt st)) =
       Post (''https://api.replicate.com'' @ request_path ref)
         [(''Authorization'', ''Bearer '' @ apiKey)] (JObj (request_body ref st prompt))"
    using p
    by (simp add: makeLanguageModelPrediction_def Let_def post_url_def post_headers_def
        split: sum.splits option.splits)
  from route inp reqs show ?thesis by simp
qed


theorem request_routing_witness:
  "request_path \<lparr>owner = ''meta'', name = ''llama'', version = Some ''abc''\<rparr> = ''/v1/predictions''
   \<and> request_body \<lparr>owner = ''meta'', name = ''llama'', version = Some ''abc''\<rparr>
         default_settings [User [TextPart ''Hi'']] ''version'' = Some (JStr ''abc'')
   \<and> request_path \<lparr>owner = ''meta'', name = ''llama'', version = None\<rparr>
       = ''/v1/models/meta/llama/predictions''
   \<and> request_body \<lparr>owner = ''meta'', name = ''llama'', version = None\<rparr>
         default_settings [User [TextPart ''Hi'']] ''version'' = None"
proof -
  have a: "parseModelId ''meta/llama:abc'' =
      Inr \<lparr>owner = ''meta'', name = ''llama'', version = Some ''abc''\<rparr>"
    by (simp add: parseModelId_def ref_regex_def ref_regex_on_def eoi_def line_terminator_def)
  have b: "parseModelId ''meta/llama'' =
      Inr \<lparr>owner = ''meta'', name = ''llama'', version = None\<rparr>"
    by (simp add: parseModelId_def ref_regex_def ref_regex_on_def eoi_def)
  show ?thesis
    using request_routing [OF a, of default_settings "[User [TextPart ''Hi'']]" upstream_hello "''k''"]
      request_routing [OF b, of default_settings "[User [TextPart ''Hi'']]" upstream_hello "''k''"]
    by simp
qed


lemma makeLanguageModelPrediction_post_failed:
  "parseModelId modelId = Inr ref \<Longrightarrow> post_prediction up ref apiKey st prompt = Inl e \<Longrightarrow>
   makeLanguageModelPrediction up modelId apiKey prompt st =
     ([Post (post_url ref) (post_headers apiKey) (JObj (request_body ref st prompt))], Inl e)"
  by (simp add: makeLanguageModelPrediction_def)

lemma makeLanguageModelPrediction_no_body:
  "parseModelId modelId = Inr ref \<Longrightarrow> post_prediction up ref apiKey st prompt = Inr p \<Longrightarrow>
   stream_of up (stream_url (urls p)) = None \<Longrightarrow>
   makeLanguageModelPrediction up modelId apiKey prompt st =
     ([Post (post_url ref) (post_headers apiKey) (JObj (request_body ref st prompt)),
       Get (stream_url (urls p)) [(''Accept'', ''text/event-stream'')]],
      Inl (Error ''Missing response body''))"
  by (simp add: makeLanguageModelPrediction_def)

lemma makeLanguageModelPrediction_stream:
  "parseModelId modelId = Inr ref \<Longrightarrow> post_prediction up ref apiKey st prompt = Inr p \<Longrightarrow>
   stream_of up (stream_url (urls p)) = Some body \<Longrightarrow>
   makeLanguageModelPrediction up modelId apiKey prompt st =
     ([Post (post_url ref) (post_headers apiKey) (JObj (request_body ref st prompt)),
       Get (stream_url (urls p)) [(''Accept'', ''text/event-stream'')]],
      Inr (transcoded body))"
  by (simp add: makeLanguageModelPrediction_def)


text \<open>
  Claim C8. When the answer to the POST has a status outside 200 to 299 and a body that fits
  the error schema, both entry points fail with an API call error whose message is the
  \<open>detail\<close> string of that body; the POST is the only request issued, so no stream has been
  opened, and nothing is retried.
\<close>

theorem initiation_error:
  assumes "parseModelId modelId = Inr ref"
    and "api up (post_url ref) (post_headers apiKey) (JObj (request_body ref st prompt)) = resp"
    and "\<not> (200 \<le> status resp \<and> status resp < 300)"
    and "schema_error (payload resp) = Some eb"
  shows "doGenerate up apiKey modelId st prompt =
           ([Post (post_url ref) (post_headers apiKey) (JObj (request_body ref st prompt))],
            Inl (APICallError (detail eb) (status resp)))
         \<and> doStream up apiKey modelId st prompt =
           ([Post (post_url ref) (post_headers apiKey) (JObj (request_body ref st prompt))],
            Inl (APICallError (detail eb) (status resp)))
         \<and> message (APICallError (detail eb) (status resp)) = detail eb"
proof -
  have "post_prediction up ref apiKey st prompt = Inl (APICallError (detail eb) (status resp))"
    using assms(2-4)
    by (auto simp: post_prediction_def postJsonToApi_def createJsonErrorResponseHandler_def)
  then have "makeLanguageModelPrediction up modelId apiKey prompt st =
     ([Post (post_url ref) (post_headers apiKey) (JObj (request_body ref st prompt))],
      Inl (APICallError (detail eb) (status resp)))"
    using assms(1) by (rule makeLanguageModelPrediction_post_failed [rotated])
  then show ?thesis by (simp add: doGenerate_def doStream_def)
qed

text \<open>
  Claim C10. When the prediction has been started, the stream has been opened and the upstream
  closes it without a \<open>done\<close> event, neither entry point fails: the stream of \<^verbatim>\<open>doStream\<close>
  holds the text deltas of the \<open>output\<close> events and no finish part and then simply ends, and
  \<^verbatim>\<open>doGenerate\<close> returns their concatenation with finish reason \<open>stop\<close> and zero usage.
\<close>

theorem stream_end_without_done:
  assumes "parseModelId modelId = Inr ref"
    and "post_prediction up ref apiKey st prompt = Inr p"
    and "stream_of up (stream_url (urls p)) = Some \<lparr>chunks = events, failure = None\<rparr>"
    and "\<forall>e \<in> set events. event e \<noteq> Some ''done''"
  shows "snd (doStream up apiKey modelId st prompt) =
           Inr \<lparr>rawCall = \<lparr>rawPrompt = prompt, rawSettings = st\<rparr>,
                stream = \<lparr>chunks = map (\<lambda>e. TextDelta (data e))
                                      (filter (\<lambda>e. event e = Some ''output'') events),
                          failure = None\<rparr>\<rparr>
         \<and> (\<forall>part \<in> set (map (\<lambda>e. TextDelta (data e))
                              (filter (\<lambda>e. event e = Some ''output'') events)).
                part_type part \<noteq> ''finish'')
         \<and> snd (doGenerate up apiKey modelId st prompt) =
           Inr \<lparr>rawCall = \<lparr>rawPrompt = prompt, rawSettings = st\<rparr>,
                text = concat (map data (filter (\<lambda>e. event e = Some ''output'') events)),
                finishReason = ''stop'',
                usage = \<lparr>promptTokens = 0, completionTokens = 0\<rparr>\<rparr>"
proof -
  let ?outs = "filter (\<lambda>e. event e = Some ''output'') events"
  have tw: "takeWhile (\<lambda>e. event e \<noteq> Some ''done'') events = events"
    using assms(4) by simp
  have q: "queue (pipeThrough events) = map (\<lambda>e. TextDelta (data e)) ?outs"
    using assms(4) by (simp add: pipeThrough_def pipe_loop_queue tw)
  have tr: "transcoded \<lparr>chunks = events, failure = None\<rparr>
      = \<lparr>chunks = map (\<lambda>e. TextDelta (data e)) ?outs, failure = None\<rparr>"
    by (simp add: transcoded_def Let_def q)
  have m: "makeLanguageModelPrediction up modelId apiKey prompt st =
     ([Post (post_url ref) (post_headers apiKey) (JObj (request_body ref st prompt)),
       Get (stream_url (urls p)) [(''Accept'', ''text/event-stream'')]],
      Inr \<lparr>chunks = map (\<lambda>e. TextDelta (data e)) ?outs, failure = None\<rparr>)"
    using makeLanguageModelPrediction_stream [OF assms(1-3)] tr by simp
  have t: "takeWhile (\<lambda>p. part_type p = ''text-delta'') (map (\<lambda>e. TextDelta (data e)) ?outs)
      = map (\<lambda>e. TextDelta (data e)) ?outs"
    by simp
  show ?thesis
    by (simp add: doStream_def doGenerate_def m for_await_acc join_empty_sep t comp_def)
qed


lemma parse_meta_llama:
  "parseModelId ''meta/llama'' = Inr \<lparr>owner = ''meta'', name = ''llama'', version = None\<rparr>"
  by (simp add: parseModelId_def ref_regex_def ref_regex_on_def eoi_def)

lemma post_prediction_created:
  "api up = (\<lambda>url headers body. prediction_created) \<Longrightarrow>
   post_prediction up ref apiKey st prompt =
     Inr \<lparr>prediction_output = None, urls = \<lparr>stream_url = ''https://stream.example/p1''\<rparr>\<rparr>"
  by (simp add: post_prediction_def postJsonToApi_def createJsonResponseHandler_def
      prediction_created_def)






theorem initiation_error_witness:
  "doGenerate upstream_rate_limited ''key'' ''meta/llama'' default_settings [User [TextPart ''Hi'']] =
     ([Post ''https://api.replicate.com/v1/models/meta/llama/predictions''
         [(''Authorization'', ''Bearer key'')]
         (JObj [''input'' \<mapsto> JObj [''prompt'' \<mapsto> JStr ''Hi'']])],
      Inl (APICallError ''rate limited'' 429))
   \<and> doStream upstream_rate_limited ''key'' ''meta/llama'' default_settings [User [TextPart ''Hi'']] =
     ([Post ''https://api.replicate.com/v1/models/meta/llama/predictions''
         [(''Authorization'', ''Bearer key'')]
         (JObj [''input'' \<mapsto> JObj [''prompt'' \<mapsto> JStr ''Hi'']])],
      Inl (APICallError ''rate limited'' 429))"
proof -
  let ?resp = "\<lparr>status = 429, statusText = ''Too Many Requests'',
          payload = JObj [''detail'' \<mapsto> JStr ''rate limited'']\<rparr>"
  let ?ref = "\<lparr>owner = ''meta'', name = ''llama'', version = None\<rparr>"
  have a: "api upstream_rate_limited (post_url ?ref) (post_headers ''key'')
      (JObj (request_body ?ref default_settings [User [TextPart ''Hi'']])) = ?resp"
    by (simp add: upstream_rate_limited_def)
  have s: "\<not> (200 \<le> status ?resp \<and> status ?resp < 300)" by simp
  have e: "schema_error (payload ?resp) = Some \<lparr>detail = ''rate limited''\<rparr>" by simp
  have b: "request_body ?ref default_settings [User [TextPart ''Hi'']]
      = [''input'' \<mapsto> JObj [''prompt'' \<mapsto> JStr ''Hi'']]"
    by (simp add: request_body_def request_input_def default_settings_def promptKey_def
        transformedPrompt_def transformedSystemPrompt_def transformPrompt_def
        transformSystemPrompt_def)
  show ?thesis
    using initiation_error [OF parse_meta_llama a s e]
    by (simp add: post_url_def post_headers_def request_path_def b)
qed

theorem stream_end_without_done_witness:
  "snd (doStream upstream_cut ''key'' ''meta/llama'' default_settings [User [TextPart ''Hi'']]) =
     Inr \<lparr>rawCall = \<lparr>rawPrompt = [User [TextPart ''Hi'']], rawSettings = default_settings\<rparr>,
          stream = \<lparr>chunks = [TextDelta ''Hel'', TextDelta ''lo''], failure = None\<rparr>\<rparr>
   \<and> snd (doGenerate upstream_cut ''key'' ''meta/llama'' default_settings [User [TextPart ''Hi'']]) =
     Inr \<lparr>rawCall = \<lparr>rawPrompt = [User [TextPart ''Hi'']], rawSettings = default_settings\<rparr>,
          text = ''Hello'', finishReason = ''stop'',
          usage = \<lparr>promptTokens = 0, completionTokens = 0\<rparr>\<rparr>"
proof -
  let ?events = "[\<lparr>data = ''Hel'', event = Some ''output''\<rparr>,
                  \<lparr>data = ''lo'', event = Some ''output''\<rparr>]"
  have p: "post_prediction upstream_cut \<lparr>owner = ''meta'', name = ''llama'', version = None\<rparr>
      ''key'' default_settings [User [TextPart ''Hi'']] =
     Inr \<lparr>prediction_output = None, urls = \<lparr>stream_url = ''https://stream.example/p1''\<rparr>\<rparr>"
    by (rule post_prediction_created) (simp add: upstream_cut_def)
  have g: "stream_of upstream_cut
      (stream_url (urls \<lparr>prediction_output = None,
         urls = \<lparr>stream_url = ''https://stream.example/p1''\<rparr>\<rparr>))
      = Some \<lparr>chunks = ?events, failure = None\<rparr>"
    by (simp add: upstream_cut_def)
  have n: "\<forall>e \<in> set ?events. event e \<noteq> Some ''done''" by simp
  show ?thesis
    using stream_end_without_done [OF parse_meta_llama p g n] by simp
qed

theorem extraInput_merge_witness:
  "request_input
     \<lparr>promptName = Some ''p'', promptTransformer = Some (\<lambda>p. ''custom''),
      systemPromptName = Some ''s'', systemPromptTransformer = None,
      extraInput = Some [''top_p'' \<mapsto> JNum (4 / 5), ''p'' \<mapsto> JNum 1, ''s'' \<mapsto> JNum 2,
                         ''prompt'' \<mapsto> JStr ''kept'']\<rparr>
     [System ''Be brief.'', User [TextPart ''Hi'']] ''top_p'' = Some (JNum (4 / 5))
   \<and> request_input
     \<lparr>promptName = Some ''p'', promptTransformer = Some (\<lambda>p. ''custom''),
      systemPromptName = Some ''s'', systemPromptTransformer = None,
      extraInput = Some [''top_p'' \<mapsto> JNum (4 / 5), ''p'' \<mapsto> JNum 1, ''s'' \<mapsto> JNum 2,
                         ''prompt'' \<mapsto> JStr ''kept'']\<rparr>
     [System ''Be brief.'', User [TextPart ''Hi'']] ''p'' = Some (JStr ''custom'')
   \<and> request_input
     \<lparr>promptName = Some ''p'', promptTransformer = Some (\<lambda>p. ''custom''),
      systemPromptName = Some ''s'', systemPromptTransformer = None,
      extraInput = Some [''top_p'' \<mapsto> JNum (4 / 5), ''p'' \<mapsto> JNum 1, ''s'' \<mapsto> JNum 2,
                         ''prompt'' \<mapsto> JStr ''kept'']\<rparr>
     [System ''Be brief.'', User [TextPart ''Hi'']] ''s'' = Some (JStr ''custom'')
   \<and> request_input
     \<lparr>promptName = Some ''p'', promptTransformer = Some (\<lambda>p. ''custom''),
      systemPromptName = Some ''s'', systemPromptTransformer = None,
      extraInput = Some [''top_p'' \<mapsto> JNum (4 / 5), ''p'' \<mapsto> JNum 1, ''s'' \<mapsto> JNum 2,
                         ''prompt'' \<mapsto> JStr ''kept'']\<rparr>
     [System ''Be brief.'', User [TextPart ''Hi'']] ''prompt'' = Some (JStr ''kept'')
   \<and> request_input
     \<lparr>promptName = None, promptTransformer = None, systemPromptName = None,
      systemPromptTransformer = None,
      extraInput = Some [''prompt'' \<mapsto> JStr ''shadowed'',
                         ''system_prompt'' \<mapsto> JStr ''shadowed too'']\<rparr>
     [System ''Be brief.'', User [TextPart ''Hi'']] ''prompt'' = Some (JStr ''Hi'')
   \<and> request_input
     \<lparr>promptName = None, promptTransformer = None, systemPromptName = None,
      systemPromptTransformer = None,
      extraInput = Some [''prompt'' \<mapsto> JStr ''shadowed'',
                         ''system_prompt'' \<mapsto> JStr ''shadowed too'']\<rparr>
     [System ''Be brief.'', User [TextPart ''Hi'']] ''system_prompt'' = Some (JStr ''Be brief.'')"
proof -
  let ?extra = "[''top_p'' \<mapsto> JNum (4 / 5), ''p'' \<mapsto> JNum 1, ''s'' \<mapsto> JNum 2,
                 ''prompt'' \<mapsto> JStr ''kept'']"
  let ?st = "\<lparr>promptName = Some ''p'', promptTransformer = Some (\<lambda>p. ''custom''),
      systemPromptName = Some ''s'', systemPromptTransformer = None,
      extraInput = Some ?extra\<rparr>"
  let ?extra' = "[''prompt'' \<mapsto> JStr ''shadowed'',
                  ''system_prompt'' \<mapsto> JStr ''shadowed too'']"
  let ?st' = "\<lparr>promptName = None, promptTransformer = None, systemPromptName = None,
      systemPromptTransformer = None, extraInput = Some ?extra'\<rparr>"
  let ?prompt = "[System ''Be brief.'', User [TextPart ''Hi'']]"
  have x: "extraInput ?st = Some ?extra" by simp
  have x': "extraInput ?st' = Some ?extra'" by simp
  have k1: "?extra ''top_p'' = Some (JNum (4 / 5))" by simp
  have k2: "?extra ''p'' = Some (JNum 1)" by simp
  have k3: "?extra ''s'' = Some (JNum 2)" by simp
  have k4: "?extra ''prompt'' = Some (JStr ''kept'')" by simp
  have k5: "?extra' ''prompt'' = Some (JStr ''shadowed'')" by simp
  have k6: "?extra' ''system_prompt'' = Some (JStr ''shadowed too'')" by simp
  show ?thesis
    using extraInput_merge [OF x k1, of ?prompt] extraInput_merge [OF x k2, of ?prompt]
      extraInput_merge [OF x k3, of ?prompt] extraInput_merge [OF x k4, of ?prompt]
      extraInput_merge [OF x' k5, of ?prompt] extraInput_merge [OF x' k6, of ?prompt]
    by (simp add: transformPrompt_def)
qed

theorem system_prompt_transformer_unused_witness:
  "request_input
     \<lparr>promptName = None, promptTransformer = Some (\<lambda>p. ''from prompt transformer''),
      systemPromptName = None,
      systemPromptTransformer = Some (\<lambda>p. ''from system transformer''),
      extraInput = None\<rparr>
     [System ''Be brief.''] ''system_prompt'' = Some (JStr ''from prompt transformer'')
   \<and> transformedSystemPrompt default_settings [System ''Be brief.'']
       = transformSystemPrompt [System ''Be brief.'']"
  using system_prompt_transformer_unused
    [of "\<lparr>promptName = None, promptTransformer = Some (\<lambda>p. ''from prompt transformer''),
      systemPromptName = None,
      systemPromptTransformer = Some (\<lambda>p. ''from system transformer''),
      extraInput = None\<rparr>" "[System ''Be brief.'']"]
    system_prompt_transformer_unused [of default_settings "[System ''Be brief.'']"]
  by (simp add: systemPromptKey_def default_settings_def)


end
